theory Spec2Isabelle
  imports Main
begin

section \<open>Strings of the Go standard library\<close>

text \<open>
  A Go \<^verbatim>\<open>string\<close> is a sequence of bytes, here a \<^typ>\<open>string\<close>. An \<^verbatim>\<open>error\<close> value
  is represented by its message (\<^verbatim>\<open>err.Error()\<close>), since the handlers write it out.
\<close>

type_synonym error = string

text \<open>
  \<^verbatim>\<open>strings.Split(s, sep)\<close> for a one-byte separator: the pieces of \<open>s\<close> between the
  occurrences of the separator, empty pieces included; the empty string gives one empty
  piece. The program only splits at \<^verbatim>\<open>"/"\<close> and \<^verbatim>\<open>"@"\<close>.
\<close>

fun Split :: "string \<Rightarrow> char \<Rightarrow> string list" where
  "Split [] sep = [[]]"
| "Split (c # s) sep =
     (if c = sep then [] # Split s sep
      else (case Split s sep of
              [] \<Rightarrow> [[c]]
            | piece # pieces \<Rightarrow> (c # piece) # pieces))"

text \<open>\<^verbatim>\<open>strings.HasPrefix\<close> and \<^verbatim>\<open>strings.Contains\<close>.\<close>

definition HasPrefix :: "string \<Rightarrow> string \<Rightarrow> bool" where
  "HasPrefix s pre = (take (length pre) s = pre)"

fun Contains :: "string \<Rightarrow> string \<Rightarrow> bool" where
  "Contains [] substr = (substr = [])"
| "Contains (c # s) substr = (HasPrefix (c # s) substr \<or> Contains s substr)"

section \<open>The index-backed gateway (main.go)\<close>

subsection \<open>Parsing a resource name\<close>

text \<open>
  \<^verbatim>\<open>extractNameAndSha\<close>: the two error returns are the \<open>Inl\<close> results, with the
  messages of the source.
\<close>

definition extractNameAndSha :: "string \<Rightarrow> error + (string \<times> string)" where
  "extractNameAndSha input =
     (let parts = Split input CHR ''/'' in
      if length parts < 2 then Inl ''invalid input format''
      else
        let namePart = parts ! (length parts - 1);
            nameParts = Split namePart CHR ''@'' in
        if length nameParts \<noteq> 2 then Inl ''invalid name and SHA format''
        else Inr (nameParts ! 0, nameParts ! 1))"

subsection \<open>The index and the process state\<close>

text \<open>
  \<^verbatim>\<open>Asset.Tags\<close> has type \<^verbatim>\<open>[]*string\<close>: each entry is the address of a string variable, and
  the tag route reads the tag through it (\<^verbatim>\<open>*tag\<close>). The variables live in a store
  \<open>mem\<close>, a map from addresses to their current contents; \<open>free\<close> is the next address
  the allocator hands out. The global \<^verbatim>\<open>RepositoryDB\<close> is a field of the process state.
\<close>

type_synonym addr = nat

record Config =
  Project :: string
  Repository :: string
  Region :: string
  Port :: string
  Credential :: string

record Asset =
  Name :: string
  SHA :: string
  RawName :: string
  URI :: string
  MediaType :: string
  Tags :: "addr list"

record process =
  RepositoryDB :: "Asset list"
  mem :: "addr \<Rightarrow> string"
  free :: addr

text \<open>
  One \<^verbatim>\<open>DockerImage\<close> message of the backend listing (the fields \<^verbatim>\<open>initDB\<close> reads), and
  one result of \<^verbatim>\<open>it.Next()\<close>: an item, or an error other than \<^verbatim>\<open>iterator.Done\<close>. A listing
  is the list of the results of the successive calls; its end is \<^verbatim>\<open>iterator.Done\<close>.
\<close>

record DockerImage =
  pb_Name :: string
  pb_Uri :: string
  pb_Tags :: "string list"
  pb_MediaType :: string

datatype next_result = Item DockerImage | Failed error

text \<open>
  The language version the module is built with is declared in \<^verbatim>\<open>go.mod\<close>, which is not
  among the sources, so it is a parameter. Up to Go 1.21 the variable of a \<^verbatim>\<open>for ... range\<close>
  statement is one variable for the whole loop (\<open>PerLoop\<close>); from Go 1.22 on every
  iteration has a variable of its own (\<open>PerIteration\<close>). The loop
  \<^verbatim>\<open>for _, tag := range resp.Tags { asset.Tags = append(asset.Tags, &tag) }\<close>
  stores the address of that variable.
\<close>

datatype loopvar = PerLoop | PerIteration

fun range_tags_shared ::
  "addr \<Rightarrow> string list \<Rightarrow> addr list \<times> (addr \<Rightarrow> string) \<Rightarrow> addr list \<times> (addr \<Rightarrow> string)" where
  "range_tags_shared p [] (tags, m) = (tags, m)"
| "range_tags_shared p (t # ts) (tags, m) = range_tags_shared p ts (tags @ [p], m(p := t))"

fun range_tags_fresh ::
  "string list \<Rightarrow> addr list \<times> (addr \<Rightarrow> string) \<times> addr \<Rightarrow> addr list \<times> (addr \<Rightarrow> string) \<times> addr" where
  "range_tags_fresh [] (tags, m, n) = (tags, m, n)"
| "range_tags_fresh (t # ts) (tags, m, n) = range_tags_fresh ts (tags @ [n], m(n := t), Suc n)"

fun append_tags ::
  "loopvar \<Rightarrow> string list \<Rightarrow> (addr \<Rightarrow> string) \<Rightarrow> addr \<Rightarrow> addr list \<times> (addr \<Rightarrow> string) \<times> addr" where
  "append_tags PerLoop ts m n =
     (case range_tags_shared n ts ([], m) of (tags, m') \<Rightarrow> (tags, m', Suc n))"
| "append_tags PerIteration ts m n = range_tags_fresh ts ([], m, n)"

definition formatPath :: "Config \<Rightarrow> error + string" where
  "formatPath config =
     Inr (''projects/'' @ Project config @ ''/locations/'' @ Region config
          @ ''/repositories/'' @ Repository config)"

text \<open>
  The loop of \<^verbatim>\<open>initDB\<close> over the iterator. It returns the error (\<open>None\<close> for \<^verbatim>\<open>nil\<close>)
  together with the process state it leaves behind.
\<close>

fun initDB_loop :: "loopvar \<Rightarrow> next_result list \<Rightarrow> process \<Rightarrow> error option \<times> process" where
  "initDB_loop lv [] st = (None, st)"
| "initDB_loop lv (Failed err # it) st = (Some err, st)"
| "initDB_loop lv (Item resp # it) st =
     (case extractNameAndSha (pb_Name resp) of
        Inl err \<Rightarrow> (Some err, st)
      | Inr (name, sha) \<Rightarrow>
          (case append_tags lv (pb_Tags resp) (mem st) (free st) of
             (tags, m', n') \<Rightarrow>
               initDB_loop lv it
                 \<lparr>RepositoryDB = RepositoryDB st @
                    [\<lparr>Name = name, SHA = sha, RawName = pb_Name resp, URI = pb_Uri resp,
                      MediaType = pb_MediaType resp, Tags = tags\<rparr>],
                  mem = m', free = n'\<rparr>))"

text \<open>\<^verbatim>\<open>client.ListDockerImages\<close> maps the parent path to the listing.\<close>

definition initDB ::
  "loopvar \<Rightarrow> Config \<Rightarrow> (string \<Rightarrow> next_result list) \<Rightarrow> process \<Rightarrow> error option \<times> process" where
  "initDB lv config ListDockerImages st =
     (case formatPath config of
        Inl err \<Rightarrow> (Some err, st)
      | Inr formattedPath \<Rightarrow> initDB_loop lv (ListDockerImages formattedPath) st)"

subsection \<open>The response writer of net/http\<close>

text \<open>
  What the client receives: the header map as it stands when the status line is written,
  the status, and the body. \<open>status\<close> is \<open>None\<close> until the header has been written;
  a header set afterwards and a second \<^verbatim>\<open>WriteHeader\<close> are not sent. The first \<^verbatim>\<open>Write\<close>
  writes status 200 when none was written. \<open>conn_error\<close> is the error a write to the
  connection returns, if any.
\<close>

record ResponseWriter =
  header :: "string \<rightharpoonup> string"
  status :: "nat option"
  body :: string
  conn_error :: "error option"

definition Header_Set :: "string \<Rightarrow> string \<Rightarrow> ResponseWriter \<Rightarrow> ResponseWriter" where
  "Header_Set k v w = (if status w = None then w\<lparr>header := (header w)(k \<mapsto> v)\<rparr> else w)"

definition WriteHeader :: "nat \<Rightarrow> ResponseWriter \<Rightarrow> ResponseWriter" where
  "WriteHeader code w = (if status w = None then w\<lparr>status := Some code\<rparr> else w)"

definition Write :: "string \<Rightarrow> ResponseWriter \<Rightarrow> error option \<times> ResponseWriter" where
  "Write p w =
     (let w' = WriteHeader 200 w in
      case conn_error w' of
        Some err \<Rightarrow> (Some err, w')
      | None \<Rightarrow> (None, w'\<lparr>body := body w' @ p\<rparr>))"

text \<open>
  \<^verbatim>\<open>io.Copy(w, reader)\<close> for a \<^verbatim>\<open>bytes.Reader\<close> or \<^verbatim>\<open>strings.Reader\<close> over \<open>data\<close>: the
  reader's \<^verbatim>\<open>WriteTo\<close> returns at once when nothing is left to read, and writes the
  data in one \<^verbatim>\<open>Write\<close> otherwise.
\<close>

definition io_Copy :: "string \<Rightarrow> ResponseWriter \<Rightarrow> error option \<times> ResponseWriter" where
  "io_Copy data w = (if data = [] then (None, w) else Write data w)"

text \<open>
  When the handler returns, the server sends the response; a handler that wrote nothing
  gets status 200 and an empty body.
\<close>

record Response =
  resp_status :: nat
  resp_header :: "string \<rightharpoonup> string"
  resp_body :: string

definition finishRequest :: "ResponseWriter \<Rightarrow> Response" where
  "finishRequest w =
     \<lparr>resp_status = (case status w of None \<Rightarrow> 200 | Some code \<Rightarrow> code),
      resp_header = header w, resp_body = body w\<rparr>"

definition newResponseWriter :: ResponseWriter where
  "newResponseWriter = \<lparr>header = Map.empty, status = None, body = [], conn_error = None\<rparr>"

subsection \<open>Credentials, login and pull\<close>

text \<open>
  The file system maps a path to the bytes of the file, or to the error of \<^verbatim>\<open>os.Open\<close>
  or \<^verbatim>\<open>io.ReadAll\<close>. The registry client offers \<^verbatim>\<open>Login\<close> (host, user, password) and
  \<^verbatim>\<open>Pull\<close>; of the pull result the handlers read \<^verbatim>\<open>Chart.Meta.Name\<close>,
  \<^verbatim>\<open>Chart.Meta.Version\<close> and \<^verbatim>\<open>Chart.Data\<close>.
\<close>

type_synonym filesystem = "string \<Rightarrow> error + string"

record PullResult =
  Chart_Meta_Name :: string
  Chart_Meta_Version :: string
  Chart_Data :: string

record RegistryClient =
  Login :: "string \<Rightarrow> string \<Rightarrow> string \<Rightarrow> error option"
  Pull :: "string \<Rightarrow> error + PullResult"

definition getCredential :: "filesystem \<Rightarrow> Config \<Rightarrow> error + (string \<times> string)" where
  "getCredential fs config =
     (case fs (Credential config) of
        Inl err \<Rightarrow> Inl err
      | Inr credentialBytes \<Rightarrow> Inr (''_json_key'', credentialBytes))"

text \<open>
  A handler either returns, leaving the response writer to the server, or calls
  \<^verbatim>\<open>log.Fatal\<close>, which prints the error and ends the process with \<^verbatim>\<open>os.Exit(1)\<close>; no
  response is sent then, and the recovery middleware does not run.
\<close>

datatype outcome = Return ResponseWriter | Exit error

definition Content_Disposition :: "PullResult \<Rightarrow> string" where
  "Content_Disposition result =
     ''attachment; filename='' @ Chart_Meta_Name result @ ''-'' @ Chart_Meta_Version result @ ''.tgz''"

subsection \<open>The digest route\<close>

text \<open>
  The body of the \<^verbatim>\<open>if\<close> inside the loop of the digest route (asset name, \<^verbatim>\<open>@\<close>, digest).
  The route also prints the name and the digest with \<^verbatim>\<open>log.Println\<close>; the log is not part
  of the response and is left out.
\<close>

definition digest_serve ::
  "filesystem \<Rightarrow> Config \<Rightarrow> RegistryClient \<Rightarrow> Asset \<Rightarrow> ResponseWriter \<Rightarrow> outcome" where
  "digest_serve fs config client asset w =
     (case getCredential fs config of
        Inl err \<Rightarrow> Exit err
      | Inr (user, credential) \<Rightarrow>
          (case Login client (URI asset) user credential of
             Some err \<Rightarrow> Exit err
           | None \<Rightarrow>
               (case Pull client (URI asset) of
                  Inl err \<Rightarrow> Exit err
                | Inr result \<Rightarrow>
                    (let w1 = Header_Set ''Content-Disposition'' (Content_Disposition result) w;
                         w2 = WriteHeader 200 w1
                     in Return (snd (io_Copy (Chart_Data result) w2))))))"

fun digest_loop ::
  "filesystem \<Rightarrow> Config \<Rightarrow> RegistryClient \<Rightarrow> Asset list \<Rightarrow> string \<Rightarrow> string \<Rightarrow>
   ResponseWriter \<Rightarrow> outcome" where
  "digest_loop fs config client [] assetName assetSHA w = Return w"
| "digest_loop fs config client (asset # assets) assetName assetSHA w =
     (if Name asset = assetName \<and> SHA asset = assetSHA
      then digest_serve fs config client asset w
      else digest_loop fs config client assets assetName assetSHA w)"

definition digestHandler ::
  "filesystem \<Rightarrow> Config \<Rightarrow> RegistryClient \<Rightarrow> process \<Rightarrow> string \<Rightarrow> string \<Rightarrow>
   ResponseWriter \<Rightarrow> outcome" where
  "digestHandler fs config client st assetName assetSHA w =
     digest_loop fs config client (RepositoryDB st) assetName assetSHA w"

subsection \<open>The tag route\<close>

text \<open>
  The body of the innermost \<^verbatim>\<open>if\<close> of the tag route (asset name, \<^verbatim>\<open>:\<close>, tag); it has no
  call of \<^verbatim>\<open>WriteHeader\<close>.
\<close>

definition tag_serve ::
  "filesystem \<Rightarrow> Config \<Rightarrow> RegistryClient \<Rightarrow> Asset \<Rightarrow> ResponseWriter \<Rightarrow> outcome" where
  "tag_serve fs config client asset w =
     (case getCredential fs config of
        Inl err \<Rightarrow> Exit err
      | Inr (user, credential) \<Rightarrow>
          (case Login client (URI asset) user credential of
             Some err \<Rightarrow> Exit err
           | None \<Rightarrow>
               (case Pull client (URI asset) of
                  Inl err \<Rightarrow> Exit err
                | Inr result \<Rightarrow>
                    (let w1 = Header_Set ''Content-Disposition'' (Content_Disposition result) w
                     in Return (snd (io_Copy (Chart_Data result) w1))))))"

text \<open>The inner loop over \<^verbatim>\<open>asset.Tags\<close>: \<open>None\<close> when it ends without a match.\<close>

fun tags_loop ::
  "filesystem \<Rightarrow> Config \<Rightarrow> RegistryClient \<Rightarrow> (addr \<Rightarrow> string) \<Rightarrow> Asset \<Rightarrow> addr list \<Rightarrow>
   string \<Rightarrow> ResponseWriter \<Rightarrow> outcome option" where
  "tags_loop fs config client m asset [] assetTag w = None"
| "tags_loop fs config client m asset (tag # tags) assetTag w =
     (if m tag = assetTag then Some (tag_serve fs config client asset w)
      else tags_loop fs config client m asset tags assetTag w)"

fun tag_loop ::
  "filesystem \<Rightarrow> Config \<Rightarrow> RegistryClient \<Rightarrow> (addr \<Rightarrow> string) \<Rightarrow> Asset list \<Rightarrow> string \<Rightarrow>
   string \<Rightarrow> ResponseWriter \<Rightarrow> outcome" where
  "tag_loop fs config client m [] assetName assetTag w = Return w"
| "tag_loop fs config client m (asset # assets) assetName assetTag w =
     (if Name asset = assetName
      then (case tags_loop fs config client m asset (Tags asset) assetTag w of
              Some out \<Rightarrow> out
            | None \<Rightarrow> tag_loop fs config client m assets assetName assetTag w)
      else tag_loop fs config client m assets assetName assetTag w)"

definition tagHandler ::
  "filesystem \<Rightarrow> Config \<Rightarrow> RegistryClient \<Rightarrow> process \<Rightarrow> string \<Rightarrow> string \<Rightarrow>
   ResponseWriter \<Rightarrow> outcome" where
  "tagHandler fs config client st assetName assetTag w =
     tag_loop fs config client (mem st) (RepositoryDB st) assetName assetTag w"

text \<open>What the client of a request receives, if anything.\<close>

fun client_sees :: "outcome \<Rightarrow> Response option" where
  "client_sees (Return w) = Some (finishRequest w)"
| "client_sees (Exit err) = None"

fun process_survives :: "outcome \<Rightarrow> bool" where
  "process_survives (Return w) = True"
| "process_survives (Exit err) = False"

section \<open>The metadata gateway\<close>

text \<open>
  The environment variables the gateway reads (\<^verbatim>\<open>os.Getenv\<close> gives the empty string for
  an unset one), and the backend: the result of \<^verbatim>\<open>artifactregistry.NewClient\<close>, of
  \<^verbatim>\<open>GetDockerImage\<close> for a resource name, and of \<^verbatim>\<open>json.Marshal\<close> on its response. Every
  call made to the backend is recorded, in order.
\<close>

record environ =
  PROJECT :: string
  REPOSITORY :: string
  REGION :: string

record ArtifactRegistry =
  NewClient :: "error option"
  GetDockerImage :: "string \<Rightarrow> error + DockerImage"
  Marshal :: "DockerImage \<Rightarrow> error + string"

datatype backend_call = CallNewClient | CallGetDockerImage string | CallClose

definition meta_formatPath :: "environ \<Rightarrow> string \<Rightarrow> error + string" where
  "meta_formatPath env path =
     (if PROJECT env = [] then Inl ''missing project''
      else if REPOSITORY env = [] then Inl ''missing repository''
      else
        let region = (if REGION env = [] then ''us-central1'' else REGION env);
            path' = (if HasPrefix path ''/'' then drop 1 path else path)
        in Inr (''projects/'' @ PROJECT env @ ''/locations/'' @ region @ ''/repositories/''
                @ REPOSITORY env @ ''/dockerImages/'' @ path'))"

definition getImageMetadataReader ::
  "environ \<Rightarrow> ArtifactRegistry \<Rightarrow> string \<Rightarrow> (error + string) \<times> backend_call list" where
  "getImageMetadataReader env c path =
     (if path = [] then (Inl ''missing path'', [])
      else
        let path' = (if \<not> HasPrefix path ''/'' then ''/'' @ path else path) in
        case NewClient c of
          Some err \<Rightarrow> (Inl err, [CallNewClient])
        | None \<Rightarrow>
            (case meta_formatPath env path' of
               Inl err \<Rightarrow> (Inl err, [CallNewClient, CallClose])
             | Inr formattedPath \<Rightarrow>
                 (case GetDockerImage c formattedPath of
                    Inl err \<Rightarrow>
                      (Inl err, [CallNewClient, CallGetDockerImage formattedPath, CallClose])
                  | Inr resp \<Rightarrow>
                      (case Marshal c resp of
                         Inl err \<Rightarrow>
                           (Inl err, [CallNewClient, CallGetDockerImage formattedPath, CallClose])
                       | Inr json \<Rightarrow>
                           (Inr json,
                            [CallNewClient, CallGetDockerImage formattedPath, CallClose])))))"

definition getAssetsHandler ::
  "environ \<Rightarrow> ArtifactRegistry \<Rightarrow> string \<Rightarrow> ResponseWriter \<Rightarrow> ResponseWriter \<times> backend_call list" where
  "getAssetsHandler env c path w =
     (if Contains path ''.ico''
      then (snd (Write (''404 Not Found'' @ [CHR 0x0A]) (WriteHeader 404 w)), [])
      else
        (case getImageMetadataReader env c path of
           (Inl err, calls) \<Rightarrow> (snd (Write err (WriteHeader 500 w)), calls)
         | (Inr reader, calls) \<Rightarrow>
             (case io_Copy reader w of
                (Some err, w1) \<Rightarrow> (snd (Write err (WriteHeader 500 w1)), calls)
              | (None, w1) \<Rightarrow> (w1, calls))))"

section \<open>The lookups as the specification words them\<close>

text \<open>
  The tags recorded for an asset are the strings its tag pointers refer to. The
  specification's \<open>lookupByDigest\<close> is the first asset in index order that matches both
  fields exactly; \<open>lookupByTag\<close> is the first asset in index order whose name matches
  and whose recorded tags contain the tag.
\<close>

definition recorded_tags :: "(addr \<Rightarrow> string) \<Rightarrow> Asset \<Rightarrow> string list" where
  "recorded_tags m asset = map m (Tags asset)"

definition lookupByDigest :: "process \<Rightarrow> string \<Rightarrow> string \<Rightarrow> Asset option" where
  "lookupByDigest st name digest =
     find (\<lambda>asset. Name asset = name \<and> SHA asset = digest) (RepositoryDB st)"

definition lookupByTag :: "process \<Rightarrow> string \<Rightarrow> string \<Rightarrow> Asset option" where
  "lookupByTag st name tag =
     find (\<lambda>asset. Name asset = name \<and> tag \<in> set (recorded_tags (mem st) asset)) (RepositoryDB st)"

text \<open>
  An asset as a reader of the index sees it, with the tags read through their pointers,
  and the index as the sequence of these.
\<close>

record AssetView =
  v_Name :: string
  v_SHA :: string
  v_RawName :: string
  v_URI :: string
  v_MediaType :: string
  v_Tags :: "string list"

definition view :: "(addr \<Rightarrow> string) \<Rightarrow> Asset \<Rightarrow> AssetView" where
  "view m asset =
     \<lparr>v_Name = Name asset, v_SHA = SHA asset, v_RawName = RawName asset, v_URI = URI asset,
      v_MediaType = MediaType asset, v_Tags = recorded_tags m asset\<rparr>"

definition index_view :: "process \<Rightarrow> AssetView list" where
  "index_view st = map (view (mem st)) (RepositoryDB st)"

definition emptyDB :: process where
  "emptyDB = \<lparr>RepositoryDB = [], mem = (\<lambda>_. []), free = 0\<rparr>"

section \<open>The build as a function of the listing\<close>

text \<open>
  The strings a reader finds behind the tag pointers of an asset built from an item
  that lists the tags \<open>ts\<close>: with a variable per iteration, the tags themselves; with
  one variable for the loop, that variable's last value, once for each tag.
\<close>

fun stored_tags :: "loopvar \<Rightarrow> string list \<Rightarrow> string list" where
  "stored_tags PerIteration ts = ts"
| "stored_tags PerLoop ts = replicate (length ts) (last ts)"

definition listed_asset :: "loopvar \<Rightarrow> DockerImage \<Rightarrow> string \<Rightarrow> string \<Rightarrow> AssetView" where
  "listed_asset lv resp name sha =
     \<lparr>v_Name = name, v_SHA = sha, v_RawName = pb_Name resp, v_URI = pb_Uri resp,
      v_MediaType = pb_MediaType resp, v_Tags = stored_tags lv (pb_Tags resp)\<rparr>"

text \<open>
  The assets a build adds to the index, in listing order: one for each item before the
  first iterator error or unparsable name.
\<close>

fun built :: "loopvar \<Rightarrow> next_result list \<Rightarrow> AssetView list" where
  "built lv [] = []"
| "built lv (Failed err # it) = []"
| "built lv (Item resp # it) =
     (case extractNameAndSha (pb_Name resp) of
        Inl err \<Rightarrow> []
      | Inr (name, sha) \<Rightarrow> listed_asset lv resp name sha # built lv it)"

definition listing_of :: "Config \<Rightarrow> (string \<Rightarrow> next_result list) \<Rightarrow> next_result list" where
  "listing_of config ListDockerImages =
     (case formatPath config of Inl err \<Rightarrow> [] | Inr formattedPath \<Rightarrow> ListDockerImages formattedPath)"

text \<open>Every tag pointer of the index refers to an allocated variable.\<close>

definition allocated :: "process \<Rightarrow> bool" where
  "allocated st = list_all (\<lambda>asset. list_all (\<lambda>p. p < free st) (Tags asset)) (RepositoryDB st)"

text \<open>An item the build incorporates: the iterator returned it and its name parses.\<close>

fun incorporated :: "next_result \<Rightarrow> bool" where
  "incorporated (Failed err) = False"
| "incorporated (Item resp) =
     (case extractNameAndSha (pb_Name resp) of Inl err \<Rightarrow> False | Inr ns \<Rightarrow> True)"

section \<open>Example data\<close>

text \<open>
  The example of the specification: the raw identifier \<^verbatim>\<open>a/b@sha256:1\<close> with the tag
  \<^verbatim>\<open>v1\<close>; the same item with a second tag; a second digest of the same name under the
  same tag; a listing whose iterator fails after the first item; a file system with and
  without the credential file; registry clients that succeed, refuse the login, and fail
  the pull.
\<close>

definition example_config :: Config where
  "example_config =
     \<lparr>Project = ''p'', Repository = ''r'', Region = ''us-central1'', Port = '':8080'',
      Credential = ''key.json''\<rparr>"

definition example_image :: DockerImage where
  "example_image =
     \<lparr>pb_Name = ''a/b@sha256:1'', pb_Uri = ''host/b@sha256:1'', pb_Tags = [''v1''],
      pb_MediaType = ''oci''\<rparr>"

definition example_image2 :: DockerImage where
  "example_image2 =
     \<lparr>pb_Name = ''a/b@sha256:1'', pb_Uri = ''host/b@sha256:1'', pb_Tags = [''v1'', ''latest''],
      pb_MediaType = ''oci''\<rparr>"

definition example_image3 :: DockerImage where
  "example_image3 =
     \<lparr>pb_Name = ''a/b@sha256:2'', pb_Uri = ''host/b@sha256:2'', pb_Tags = [''v1''],
      pb_MediaType = ''oci''\<rparr>"

definition example_listing3 :: "string \<Rightarrow> next_result list" where
  "example_listing3 parent = [Item example_image, Item example_image3]"

definition failing_listing :: "string \<Rightarrow> next_result list" where
  "failing_listing parent = [Item example_image, Failed ''unavailable'', Item example_image3]"

definition example_listing :: "string \<Rightarrow> next_result list" where
  "example_listing parent = [Item example_image]"

definition example_listing2 :: "string \<Rightarrow> next_result list" where
  "example_listing2 parent = [Item example_image2]"

definition example_fs :: filesystem where
  "example_fs path = (if path = ''key.json'' then Inr ''secret'' else Inl ''no such file'')"

definition missing_fs :: filesystem where
  "missing_fs path = Inl ''no such file''"

definition example_chart :: PullResult where
  "example_chart = \<lparr>Chart_Meta_Name = ''b'', Chart_Meta_Version = ''1.0.0'', Chart_Data = ''tgz''\<rparr>"

definition example_client :: RegistryClient where
  "example_client = \<lparr>Login = (\<lambda>host user password. None), Pull = (\<lambda>ref. Inr example_chart)\<rparr>"

definition refusing_client :: RegistryClient where
  "refusing_client =
     \<lparr>Login = (\<lambda>host user password. Some ''unauthorized''), Pull = (\<lambda>ref. Inr example_chart)\<rparr>"

definition failing_client :: RegistryClient where
  "failing_client =
     \<lparr>Login = (\<lambda>host user password. None), Pull = (\<lambda>ref. Inl ''manifest unknown'')\<rparr>"

definition example_index :: process where
  "example_index = snd (initDB PerIteration example_config example_listing emptyDB)"

text \<open>
  Three more listings of two items each. In the first, the second item has another
  digest and another tag than the first. In the second, the second item is another
  resource whose last segment is that of the first, so both parse to the same name and
  digest. The third is \<open>example_listing3\<close>, where two digests of one name carry the
  same tag. The last client returns the reference it is asked to pull as the chart's
  bytes, so that its answers tell the assets apart.
\<close>

definition example_image5 :: DockerImage where
  "example_image5 =
     \<lparr>pb_Name = ''a/b@sha256:2'', pb_Uri = ''host/b@sha256:2'', pb_Tags = [''v2''],
      pb_MediaType = ''oci''\<rparr>"

definition example_listing5 :: "string \<Rightarrow> next_result list" where
  "example_listing5 parent = [Item example_image, Item example_image5]"

definition example_index5 :: process where
  "example_index5 = snd (initDB PerIteration example_config example_listing5 emptyDB)"

definition example_image4 :: DockerImage where
  "example_image4 =
     \<lparr>pb_Name = ''x/b@sha256:1'', pb_Uri = ''other/b@sha256:1'', pb_Tags = [''v1''],
      pb_MediaType = ''oci''\<rparr>"

definition example_listing4 :: "string \<Rightarrow> next_result list" where
  "example_listing4 parent = [Item example_image, Item example_image4]"

definition duplicate_index :: process where
  "duplicate_index = snd (initDB PerIteration example_config example_listing4 emptyDB)"

definition shared_tag_index :: process where
  "shared_tag_index = snd (initDB PerIteration example_config example_listing3 emptyDB)"

definition echo_client :: RegistryClient where
  "echo_client =
     \<lparr>Login = (\<lambda>host user password. None),
      Pull = (\<lambda>ref. Inr \<lparr>Chart_Meta_Name = ''b'', Chart_Meta_Version = ''1.0.0'',
                           Chart_Data = ref\<rparr>)\<rparr>"

section \<open>Properties of the string functions\<close>

lemma Split_not_Nil: "Split s sep \<noteq> []"
  by (induction s) (auto split: list.splits)

lemma length_Split: "length (Split s sep) = Suc (count_list s sep)"
proof (induction s)
  case Nil
  show ?case by simp
next
  case (Cons c s)
  then show ?case
    by (cases "Split s sep") (auto simp: Split_not_Nil)
qed

lemma Split_no_sep: "p \<in> set (Split s sep) \<Longrightarrow> sep \<notin> set p"
proof (induction s arbitrary: p)
  case Nil
  then show ?case by simp
next
  case (Cons c s)
  then show ?case
    by (cases "Split s sep") (auto simp: Split_not_Nil split: if_splits)
qed

lemma Split_append: "Split (a @ sep # b) sep = Split a sep @ Split b sep"
proof (induction a)
  case Nil
  show ?case by simp
next
  case (Cons c a)
  then show ?case
    by (cases "Split a sep") (auto simp: Split_not_Nil)
qed

lemma Split_none: "sep \<notin> set s \<Longrightarrow> Split s sep = [s]"
  by (induction s) auto

lemma Split_last_decomp:
  "2 \<le> length (Split s sep) \<Longrightarrow> \<exists>pre. s = pre @ sep # last (Split s sep)"
proof (induction s)
  case Nil
  then show ?case by simp
next
  case (Cons c s)
  show ?case
  proof (cases "2 \<le> length (Split s sep)")
    case True
    with Cons.IH obtain pre where pre: "s = pre @ sep # last (Split s sep)" by blast
    have "last (Split (c # s) sep) = last (Split s sep)"
      using True by (cases "Split s sep") (auto split: list.splits)
    with pre have "c # s = (c # pre) @ sep # last (Split (c # s) sep)" by simp
    then show ?thesis by blast
  next
    case False
    then obtain p where p: "Split s sep = [p]"
      using Split_not_Nil [of s sep] by (cases "Split s sep") (auto simp: Suc_le_eq)
    with Cons.prems have c: "c = sep" by (auto split: if_splits)
    have "sep \<notin> set s" using p length_Split [of s sep] by (simp add: count_list_0_iff)
    then have "p = s" using p by (simp add: Split_none)
    with p c have "c # s = [] @ sep # last (Split (c # s) sep)" by simp
    then show ?thesis by blast
  qed
qed

lemma Split_two: "Split s sep = [a, b] \<longleftrightarrow> s = a @ sep # b \<and> sep \<notin> set a \<and> sep \<notin> set b"
proof
  assume h: "Split s sep = [a, b]"
  then have "2 \<le> length (Split s sep)" by simp
  then obtain pre where pre: "s = pre @ sep # last (Split s sep)"
    using Split_last_decomp by blast
  with h have s: "s = pre @ sep # b" by simp
  have nb: "sep \<notin> set b" and na: "sep \<notin> set a" using Split_no_sep [of _ s sep] h by auto
  from s have "Split s sep = Split pre sep @ [b]" using nb by (simp add: Split_append Split_none)
  with h have "Split pre sep = [a]" by simp
  then have "sep \<notin> set pre" using length_Split [of pre sep] by (simp add: count_list_0_iff)
  then have "pre = a" using \<open>Split pre sep = [a]\<close> by (simp add: Split_none)
  with s na nb show "s = a @ sep # b \<and> sep \<notin> set a \<and> sep \<notin> set b" by simp
next
  assume "s = a @ sep # b \<and> sep \<notin> set a \<and> sep \<notin> set b"
  then show "Split s sep = [a, b]" by (simp add: Split_append Split_none)
qed

lemma last_parts: "Split s sep ! (length (Split s sep) - 1) = last (Split s sep)"
  by (simp add: last_conv_nth Split_not_Nil)

lemma Split_length_two: "length (Split s sep) = 2 \<longleftrightarrow> (\<exists>a b. Split s sep = [a, b])"
proof
  assume "length (Split s sep) = 2"
  then show "\<exists>a b. Split s sep = [a, b]"
    by (cases "Split s sep"; cases "tl (Split s sep)") auto
qed auto

lemma extractNameAndSha_Inr:
  "extractNameAndSha input = Inr (name, sha) \<longleftrightarrow>
     2 \<le> length (Split input CHR ''/'') \<and> Split (last (Split input CHR ''/'')) CHR ''@'' = [name, sha]"
proof -
  have "length (Split (last (Split input CHR ''/'')) CHR ''@'') = 2 \<and>
        Split (last (Split input CHR ''/'')) CHR ''@'' ! 0 = name \<and>
        Split (last (Split input CHR ''/'')) CHR ''@'' ! 1 = sha
        \<longleftrightarrow> Split (last (Split input CHR ''/'')) CHR ''@'' = [name, sha]"
    by (auto simp: Split_length_two)
  then show ?thesis
    unfolding extractNameAndSha_def Let_def last_parts by auto
qed

lemma extractNameAndSha_shape:
  "extractNameAndSha input = Inr (name, sha) \<longleftrightarrow>
     (\<exists>pre. input = pre @ ''/'' @ name @ ''@'' @ sha) \<and>
     CHR ''/'' \<notin> set name \<and> CHR ''/'' \<notin> set sha \<and> CHR ''@'' \<notin> set name \<and> CHR ''@'' \<notin> set sha"
proof
  assume "extractNameAndSha input = Inr (name, sha)"
  then have len: "2 \<le> length (Split input CHR ''/'')"
    and two: "Split (last (Split input CHR ''/'')) CHR ''@'' = [name, sha]"
    by (simp_all add: extractNameAndSha_Inr)
  from two have l: "last (Split input CHR ''/'') = name @ CHR ''@'' # sha"
    and at: "CHR ''@'' \<notin> set name" "CHR ''@'' \<notin> set sha"
    by (simp_all add: Split_two)
  have "last (Split input CHR ''/'') \<in> set (Split input CHR ''/'')"
    by (simp add: Split_not_Nil)
  then have "CHR ''/'' \<notin> set (last (Split input CHR ''/''))" by (rule Split_no_sep)
  with l have sl: "CHR ''/'' \<notin> set name" "CHR ''/'' \<notin> set sha" by simp_all
  from Split_last_decomp [OF len] l obtain pre where "input = pre @ ''/'' @ name @ ''@'' @ sha"
    by auto
  with at sl show "(\<exists>pre. input = pre @ ''/'' @ name @ ''@'' @ sha) \<and>
     CHR ''/'' \<notin> set name \<and> CHR ''/'' \<notin> set sha \<and> CHR ''@'' \<notin> set name \<and> CHR ''@'' \<notin> set sha"
    by blast
next
  assume h: "(\<exists>pre. input = pre @ ''/'' @ name @ ''@'' @ sha) \<and>
     CHR ''/'' \<notin> set name \<and> CHR ''/'' \<notin> set sha \<and> CHR ''@'' \<notin> set name \<and> CHR ''@'' \<notin> set sha"
  then obtain pre where pre: "input = pre @ CHR ''/'' # (name @ CHR ''@'' # sha)" by auto
  from h have "CHR ''/'' \<notin> set (name @ CHR ''@'' # sha)" by simp
  then have "Split (name @ CHR ''@'' # sha) CHR ''/'' = [name @ CHR ''@'' # sha]"
    by (rule Split_none)
  then have sp: "Split input CHR ''/'' = Split pre CHR ''/'' @ [name @ CHR ''@'' # sha]"
    unfolding pre Split_append by simp
  have "1 \<le> length (Split pre CHR ''/'')" by (simp add: length_Split)
  with sp have len: "2 \<le> length (Split input CHR ''/'')" by simp
  from sp have "last (Split input CHR ''/'') = name @ CHR ''@'' # sha" by simp
  moreover from h have "Split (name @ CHR ''@'' # sha) CHR ''@'' = [name, sha]"
    by (simp add: Split_two)
  ultimately show "extractNameAndSha input = Inr (name, sha)"
    using len by (simp add: extractNameAndSha_Inr)
qed

lemma count_one_Split: "count_list s sep = 1 \<longleftrightarrow> (\<exists>a b. Split s sep = [a, b])"
  unfolding Split_length_two [symmetric] length_Split by auto

section \<open>Properties of the index build\<close>

lemma range_tags_shared_eq:
  "range_tags_shared p ts (acc, m) =
     (acc @ replicate (length ts) p, if ts = [] then m else m(p := last ts))"
proof (induction ts arbitrary: acc m)
  case Nil
  show ?case by simp
next
  case (Cons t ts)
  show ?case by (auto simp: Cons.IH replicate_append_same fun_eq_iff)
qed

lemma range_tags_fresh_eq:
  "range_tags_fresh ts (acc, m, n) =
     (acc @ [n..<n + length ts],
      (\<lambda>p. if n \<le> p \<and> p < n + length ts then ts ! (p - n) else m p),
      n + length ts)"
proof (induction ts arbitrary: acc m n)
  case Nil
  show ?case by (auto simp: fun_eq_iff)
next
  case (Cons t ts)
  have f: "(\<lambda>p. if Suc n \<le> p \<and> p < Suc n + length ts then ts ! (p - Suc n) else (m(n := t)) p) =
        (\<lambda>p. if n \<le> p \<and> p < n + length (t # ts) then (t # ts) ! (p - n) else m p)"
    by (rule ext) (auto simp: nth_Cons' Suc_diff_le)
  have u: "[n..<n + length (t # ts)] = n # [Suc n..<Suc n + length ts]"
    using upt_conv_Cons [of n "n + length (t # ts)"] by simp
  have "range_tags_fresh (t # ts) (acc, m, n) = range_tags_fresh ts (acc @ [n], m(n := t), Suc n)"
    by simp
  also have "\<dots> = ((acc @ [n]) @ [Suc n..<Suc n + length ts],
      (\<lambda>p. if Suc n \<le> p \<and> p < Suc n + length ts then ts ! (p - Suc n) else (m(n := t)) p),
      Suc n + length ts)"
    by (rule Cons.IH)
  also have "\<dots> = (acc @ [n..<n + length (t # ts)],
      (\<lambda>p. if n \<le> p \<and> p < n + length (t # ts) then (t # ts) ! (p - n) else m p),
      n + length (t # ts))"
    unfolding f u by simp
  finally show ?case .
qed

lemma append_tags_props:
  assumes "append_tags lv ts m n = (tags, m', n')"
  shows "n \<le> n'" and "\<forall>p<n. m' p = m p" and "\<forall>p\<in>set tags. p < n'"
    and "map m' tags = stored_tags lv ts"
proof -
  show "n \<le> n'" using assms
    by (cases lv) (auto simp: range_tags_shared_eq range_tags_fresh_eq)
  show "\<forall>p<n. m' p = m p" using assms
    by (cases lv) (auto simp: range_tags_shared_eq range_tags_fresh_eq)
  show "\<forall>p\<in>set tags. p < n'" using assms
    by (cases lv) (auto simp: range_tags_shared_eq range_tags_fresh_eq)
  show "map m' tags = stored_tags lv ts"
  proof (cases lv)
    case PerLoop
    with assms show ?thesis
      by (cases "ts = []") (auto simp: range_tags_shared_eq map_replicate_const)
  next
    case PerIteration
    with assms have tags: "tags = [n..<n + length ts]"
      and m': "m' = (\<lambda>p. if n \<le> p \<and> p < n + length ts then ts ! (p - n) else m p)"
      by (auto simp: range_tags_fresh_eq)
    have "map m' tags = ts"
      unfolding tags m' by (rule nth_equalityI) simp_all
    with PerIteration show ?thesis by simp
  qed
qed

lemma view_frame:
  "list_all (\<lambda>p. p < n) (Tags asset) \<Longrightarrow> \<forall>p<n. m' p = m p \<Longrightarrow> view m' asset = view m asset"
  by (simp add: view_def recorded_tags_def list_all_iff)

lemma views_frame:
  "list_all (\<lambda>asset. list_all (\<lambda>p. p < n) (Tags asset)) db \<Longrightarrow> \<forall>p<n. m' p = m p \<Longrightarrow>
   map (view m') db = map (view m) db"
  by (induction db) (simp_all add: view_def recorded_tags_def list_all_iff)

lemma allocated_mono:
  "list_all (\<lambda>asset. list_all (\<lambda>p. p < n) (Tags asset)) db \<Longrightarrow> n \<le> n' \<Longrightarrow>
   list_all (\<lambda>asset. list_all (\<lambda>p. p < n') (Tags asset)) db"
  by (fastforce simp: list_all_iff)

lemma initDB_loop_props:
  "allocated st \<Longrightarrow> initDB_loop lv it st = (e, st') \<Longrightarrow>
   allocated st' \<and> free st \<le> free st' \<and> (\<forall>p<free st. mem st' p = mem st p) \<and>
   index_view st' = index_view st @ built lv it \<and>
   take (length (RepositoryDB st)) (RepositoryDB st') = RepositoryDB st"
proof (induction lv it st rule: initDB_loop.induct)
  case (1 lv st)
  then show ?case by simp
next
  case (2 lv err it st)
  then show ?case by simp
next
  case (3 lv resp it st)
  show ?case
  proof (cases "extractNameAndSha (pb_Name resp)")
    case (Inl err)
    with "3.prems" show ?thesis by simp
  next
    case (Inr ns)
    obtain name sha where ns: "ns = (name, sha)" by (cases ns)
    obtain tags m' n' where at: "append_tags lv (pb_Tags resp) (mem st) (free st) = (tags, m', n')"
      by (cases "append_tags lv (pb_Tags resp) (mem st) (free st)")
    let ?asset = "\<lparr>Name = name, SHA = sha, RawName = pb_Name resp, URI = pb_Uri resp,
                      MediaType = pb_MediaType resp, Tags = tags\<rparr>"
    let ?st1 = "\<lparr>RepositoryDB = RepositoryDB st @ [?asset], mem = m', free = n'\<rparr>"
    note ap = append_tags_props [OF at]
    have run: "initDB_loop lv it ?st1 = (e, st')"
      using "3.prems"(2) Inr ns at by simp
    have old: "list_all (\<lambda>asset. list_all (\<lambda>p. p < free st) (Tags asset)) (RepositoryDB st)"
      using "3.prems"(1) by (simp add: allocated_def)
    have alloc1: "allocated ?st1"
      using allocated_mono [OF old ap(1)] ap(3) by (simp add: allocated_def list_all_iff)
    have view1: "index_view ?st1 = index_view st @ [listed_asset lv resp name sha]"
      using views_frame [OF old ap(2)] ap(4)
      by (simp add: index_view_def view_def recorded_tags_def listed_asset_def)
    from "3.IH" [OF Inr ns [symmetric] at [symmetric] refl alloc1 run]
    have ih: "allocated st'" "n' \<le> free st'" "\<forall>p<n'. mem st' p = m' p"
      "index_view st' = index_view ?st1 @ built lv it"
      "take (Suc (length (RepositoryDB st))) (RepositoryDB st') = RepositoryDB st @ [?asset]"
      by simp_all
    have "take (length (RepositoryDB st)) (take (Suc (length (RepositoryDB st))) (RepositoryDB st'))
          = RepositoryDB st"
      unfolding ih(5) by simp
    then have tk: "take (length (RepositoryDB st)) (RepositoryDB st') = RepositoryDB st"
      by (simp add: min_def)
    from ih ap view1 tk Inr ns show ?thesis by auto
  qed
qed

lemma initDB_eq: "initDB lv config L st = initDB_loop lv (listing_of config L) st"
  by (simp add: initDB_def listing_of_def formatPath_def)

lemma allocated_emptyDB: "allocated emptyDB"
  by (simp add: allocated_def emptyDB_def)

lemma index_view_emptyDB: "index_view emptyDB = []"
  by (simp add: index_view_def emptyDB_def)

lemma initDB_loop_append:
  "initDB_loop lv pre st = (None, st') \<Longrightarrow>
   initDB_loop lv (pre @ rest) st = initDB_loop lv rest st'"
proof (induction lv pre st rule: initDB_loop.induct)
  case (1 lv st)
  then show ?case by simp
next
  case (2 lv err it st)
  then show ?case by simp
next
  case (3 lv resp it st)
  then show ?case
    by (auto split: sum.splits prod.splits)
qed

lemma built_nth:
  "initDB_loop lv it st = (None, st') \<Longrightarrow> i < length it \<Longrightarrow> it ! i = Item resp \<Longrightarrow>
   extractNameAndSha (pb_Name resp) = Inr (name, sha) \<Longrightarrow>
   i < length (built lv it) \<and> built lv it ! i = listed_asset lv resp name sha"
proof (induction lv it st arbitrary: i rule: initDB_loop.induct)
  case (1 lv st)
  then show ?case by simp
next
  case (2 lv err it st)
  then show ?case by simp
next
  case (3 lv resp' it st)
  show ?case
  proof (cases i)
    case 0
    with "3.prems" show ?thesis by simp
  next
    case (Suc j)
    with "3.prems" "3.IH" show ?thesis
      by (auto split: sum.splits prod.splits)
  qed
qed

lemma find_map_view:
  "map_option f (find (\<lambda>x. P (f x)) xs) = find P (map f xs)"
  by (induction xs) simp_all

lemma find_distinct_nth:
  "distinct (map f xs) \<Longrightarrow> i < length xs \<Longrightarrow> find (\<lambda>x. f x = f (xs ! i)) xs = Some (xs ! i)"
proof (induction xs arbitrary: i)
  case Nil
  then show ?case by simp
next
  case (Cons x xs)
  show ?case
  proof (cases i)
    case 0
    then show ?thesis by simp
  next
    case (Suc j)
    with Cons.prems have "f (xs ! j) \<in> f ` set xs" by simp
    with Cons.prems have "f x \<noteq> f (xs ! j)" by auto
    with Cons Suc show ?thesis by simp
  qed
qed

section \<open>The handlers' loops find the first match\<close>

lemma digest_loop_find:
  "digest_loop fs config client db name digest w =
     (case find (\<lambda>asset. Name asset = name \<and> SHA asset = digest) db of
        None \<Rightarrow> Return w
      | Some asset \<Rightarrow> digest_serve fs config client asset w)"
  by (induction db) simp_all

lemma tags_loop_eq:
  "tags_loop fs config client m asset tags tag w =
     (if tag \<in> set (map m tags) then Some (tag_serve fs config client asset w) else None)"
  by (induction tags) auto

lemma tag_loop_find:
  "tag_loop fs config client m db name tag w =
     (case find (\<lambda>asset. Name asset = name \<and> tag \<in> set (recorded_tags m asset)) db of
        None \<Rightarrow> Return w
      | Some asset \<Rightarrow> tag_serve fs config client asset w)"
  by (induction db) (simp_all add: tags_loop_eq recorded_tags_def)

lemma digestHandler_lookup:
  "digestHandler fs config client st name digest w =
     (case lookupByDigest st name digest of
        None \<Rightarrow> Return w
      | Some asset \<Rightarrow> digest_serve fs config client asset w)"
  by (simp add: digestHandler_def lookupByDigest_def digest_loop_find)

lemma tagHandler_lookup:
  "tagHandler fs config client st name tag w =
     (case lookupByTag st name tag of
        None \<Rightarrow> Return w
      | Some asset \<Rightarrow> tag_serve fs config client asset w)"
  by (simp add: tagHandler_def lookupByTag_def tag_loop_find)

lemma io_Copy_finish:
  "finishRequest (snd (io_Copy data (WriteHeader 200 w))) = finishRequest (snd (io_Copy data w))"
  by (auto simp: io_Copy_def Write_def WriteHeader_def finishRequest_def Let_def
      split: option.splits)

lemma serve_same_response:
  "client_sees (digest_serve fs config client asset w) =
   client_sees (tag_serve fs config client asset w)"
  by (simp add: digest_serve_def tag_serve_def io_Copy_finish Let_def
      split: sum.splits option.splits prod.splits)

lemma example_parse: "extractNameAndSha ''a/b@sha256:1'' = Inr (''b'', ''sha256:1'')"
  by (simp add: extractNameAndSha_def)

lemma example_index_db:
  "RepositoryDB example_index =
     [\<lparr>Name = ''b'', SHA = ''sha256:1'', RawName = ''a/b@sha256:1'', URI = ''host/b@sha256:1'',
       MediaType = ''oci'', Tags = [0]\<rparr>]"
  by (simp add: example_index_def initDB_eq listing_of_def formatPath_def example_listing_def
      example_image_def example_parse emptyDB_def)

lemma example_index_mem: "mem example_index 0 = ''v1''"
  by (simp add: example_index_def initDB_eq listing_of_def formatPath_def example_listing_def
      example_image_def example_parse emptyDB_def)

lemma example_index_build:
  "initDB PerIteration example_config example_listing emptyDB = (None, example_index)"
  by (simp add: example_index_def initDB_eq listing_of_def formatPath_def example_listing_def
      example_image_def example_parse emptyDB_def)

lemma example_listing_of: "listing_of example_config example_listing = [Item example_image]"
  by (simp add: listing_of_def formatPath_def example_listing_def)

lemma index_view_build:
  "initDB lv config L emptyDB = (e, st) \<Longrightarrow> index_view st = built lv (listing_of config L)"
  using initDB_loop_props [OF allocated_emptyDB, of lv "listing_of config L" e st]
  by (simp add: initDB_eq index_view_emptyDB)

lemma incorporated_run:
  "list_all incorporated pre \<Longrightarrow>
   fst (initDB_loop lv pre st) = None \<and> length (built lv pre) = length pre"
proof (induction lv pre st rule: initDB_loop.induct)
  case (1 lv st)
  show ?case by simp
next
  case (2 lv err it st)
  then show ?case by simp
next
  case (3 lv resp it st)
  then show ?case
    by (auto split: sum.splits prod.splits)
qed

lemma initDB_loop_fail_head:
  "bad = Failed err \<or> (\<exists>resp. bad = Item resp \<and> extractNameAndSha (pb_Name resp) = Inl err) \<Longrightarrow>
   initDB_loop lv (bad # rest) st = (Some err, st)"
  by auto

lemma Contains_self: "Contains s s"
  by (cases s) (simp_all add: HasPrefix_def)

lemma Contains_suffix: "Contains (p @ s) s"
  by (induction p) (simp_all add: Contains_self)

lemma example_listing3_of:
  "listing_of example_config example_listing3 = [Item example_image, Item example_image3]"
  by (simp add: listing_of_def formatPath_def example_listing3_def)

lemma example_parse3: "extractNameAndSha ''a/b@sha256:2'' = Inr (''b'', ''sha256:2'')"
  by (simp add: extractNameAndSha_def)

lemma example_lookupByDigest:
  "lookupByDigest example_index ''b'' ''sha256:1'' = Some (RepositoryDB example_index ! 0)"
  by (simp add: lookupByDigest_def example_index_db)

lemma example_lookupByTag:
  "lookupByTag example_index ''b'' ''v1'' = Some (RepositoryDB example_index ! 0)"
  by (simp add: lookupByTag_def recorded_tags_def example_index_db example_index_mem)

lemma example_getCredential:
  "getCredential example_fs example_config = Inr (''_json_key'', ''secret'')"
  by (simp add: getCredential_def example_fs_def example_config_def)

lemma listed_item_parses:
  "initDB_loop lv it st = (None, st') \<Longrightarrow> i < length it \<Longrightarrow> it ! i = Item resp \<Longrightarrow>
   \<exists>name sha. extractNameAndSha (pb_Name resp) = Inr (name, sha)"
proof (induction lv it st arbitrary: i rule: initDB_loop.induct)
  case (1 lv st)
  then show ?case by simp
next
  case (2 lv err it st)
  then show ?case by simp
next
  case (3 lv resp' it st)
  show ?case
  proof (cases i)
    case 0
    with "3.prems" show ?thesis by (auto split: sum.splits)
  next
    case (Suc j)
    with "3.prems" "3.IH" show ?thesis
      by (auto split: sum.splits prod.splits)
  qed
qed

lemma recorded_tags_of_item:
  assumes build: "initDB lv config L emptyDB = (None, st)"
    and i: "i < length (listing_of config L)"
    and item: "listing_of config L ! i = Item resp"
  shows "recorded_tags (mem st) (RepositoryDB st ! i) = stored_tags lv (pb_Tags resp)"
proof -
  have run: "initDB_loop lv (listing_of config L) emptyDB = (None, st)"
    using build by (simp add: initDB_eq)
  from listed_item_parses [OF run i item] obtain name sha
    where parse: "extractNameAndSha (pb_Name resp) = Inr (name, sha)" by blast
  from built_nth [OF run i item parse]
  have bi: "i < length (built lv (listing_of config L))"
    and bn: "built lv (listing_of config L) ! i = listed_asset lv resp name sha"
    by simp_all
  have iv: "index_view st = built lv (listing_of config L)"
    using build by (rule index_view_build)
  have "length (index_view st) = length (RepositoryDB st)" by (simp add: index_view_def)
  with bi iv have len: "i < length (RepositoryDB st)" by simp
  have "index_view st ! i = view (mem st) (RepositoryDB st ! i)"
    using len by (simp add: index_view_def)
  with iv bn have "view (mem st) (RepositoryDB st ! i) = listed_asset lv resp name sha" by simp
  then have "v_Tags (view (mem st) (RepositoryDB st ! i)) = v_Tags (listed_asset lv resp name sha)"
    by simp
  then show ?thesis by (simp add: view_def listed_asset_def)
qed

lemma tag_serve_success:
  assumes "getCredential fs config = Inr (user, credential)"
    and "Login client (URI asset) user credential = None"
    and "Pull client (URI asset) = Inr result"
  shows "tag_serve fs config client asset w =
    Return (snd (io_Copy (Chart_Data result)
      (Header_Set ''Content-Disposition'' (Content_Disposition result) w)))"
  unfolding tag_serve_def by (simp add: assms Let_def)

lemma fresh_copy:
  "finishRequest (snd (io_Copy data (Header_Set k v newResponseWriter))) =
     \<lparr>resp_status = 200, resp_header = [k \<mapsto> v], resp_body = data\<rparr>"
  by (simp add: Header_Set_def io_Copy_def Write_def WriteHeader_def finishRequest_def
      newResponseWriter_def Let_def)


lemma getAssetsHandler_backend_error:
  "\<not> Contains path ''.ico'' \<Longrightarrow> getImageMetadataReader env c path = (Inl err, calls) \<Longrightarrow>
   finishRequest (fst (getAssetsHandler env c path newResponseWriter)) =
     \<lparr>resp_status = 500, resp_header = Map.empty, resp_body = err\<rparr>"
  by (simp add: getAssetsHandler_def Write_def WriteHeader_def finishRequest_def
      newResponseWriter_def Let_def)

section \<open>First matches and the example indexes\<close>

lemma find_first_nth:
  "i < length xs \<Longrightarrow> P (xs ! i) \<Longrightarrow> \<forall>j<i. \<not> P (xs ! j) \<Longrightarrow> find P xs = Some (xs ! i)"
  unfolding find_Some_iff by blast

lemma find_least_nth:
  assumes "i < length xs" and "P (xs ! i)"
  shows "\<exists>k\<le>i. find P xs = Some (xs ! k) \<and> P (xs ! k) \<and> (\<forall>j<k. \<not> P (xs ! j))"
proof -
  have "xs ! i \<in> set xs" using assms(1) by simp
  with assms(2) have "find P xs \<noteq> None" by (auto simp: find_None_iff)
  then obtain x where f: "find P xs = Some x" by blast
  then obtain k where k: "k < length xs" "P (xs ! k)" "x = xs ! k" "\<forall>j<k. \<not> P (xs ! j)"
    unfolding find_Some_iff by blast
  have "k \<le> i"
  proof (rule ccontr)
    assume "\<not> k \<le> i"
    then have "i < k" by simp
    with k(4) assms(2) show False by blast
  qed
  with f k show ?thesis by blast
qed

lemma index_nth_view:
  assumes build: "initDB lv config L emptyDB = (None, st)"
    and i: "i < length (listing_of config L)"
    and item: "listing_of config L ! i = Item resp"
    and parse: "extractNameAndSha (pb_Name resp) = Inr (name, digest)"
  shows "i < length (RepositoryDB st)"
    and "view (mem st) (RepositoryDB st ! i) = listed_asset lv resp name digest"
    and "Name (RepositoryDB st ! i) = name" and "SHA (RepositoryDB st ! i) = digest"
proof -
  let ?db = "RepositoryDB st"
  have iv: "index_view st = built lv (listing_of config L)"
    using build by (rule index_view_build)
  have run: "initDB_loop lv (listing_of config L) emptyDB = (None, st)"
    using build by (simp add: initDB_eq)
  from built_nth [OF run i item parse]
  have bi: "i < length (built lv (listing_of config L))"
    and bn: "built lv (listing_of config L) ! i = listed_asset lv resp name digest"
    by simp_all
  have "length (index_view st) = length ?db" by (simp add: index_view_def)
  with bi iv show len: "i < length ?db" by simp
  have "index_view st ! i = view (mem st) (?db ! i)"
    using len by (simp add: index_view_def)
  with iv bn show v: "view (mem st) (?db ! i) = listed_asset lv resp name digest" by simp
  then have "v_Name (view (mem st) (?db ! i)) = name" "v_SHA (view (mem st) (?db ! i)) = digest"
    by (simp_all add: listed_asset_def)
  then show "Name (?db ! i) = name" "SHA (?db ! i) = digest"
    by (simp_all add: view_def)
qed

lemma example_parse4: "extractNameAndSha ''x/b@sha256:1'' = Inr (''b'', ''sha256:1'')"
  by (simp add: extractNameAndSha_def)

lemma example_listing4_of:
  "listing_of example_config example_listing4 = [Item example_image, Item example_image4]"
  by (simp add: listing_of_def formatPath_def example_listing4_def)

lemma example_listing5_of:
  "listing_of example_config example_listing5 = [Item example_image, Item example_image5]"
  by (simp add: listing_of_def formatPath_def example_listing5_def)

lemma duplicate_index_build:
  "initDB PerIteration example_config example_listing4 emptyDB = (None, duplicate_index)"
  by (simp add: duplicate_index_def initDB_eq example_listing4_of example_image_def
      example_image4_def example_parse example_parse4)

lemma duplicate_index_db:
  "RepositoryDB duplicate_index =
     [\<lparr>Name = ''b'', SHA = ''sha256:1'', RawName = ''a/b@sha256:1'', URI = ''host/b@sha256:1'',
       MediaType = ''oci'', Tags = [0]\<rparr>,
      \<lparr>Name = ''b'', SHA = ''sha256:1'', RawName = ''x/b@sha256:1'', URI = ''other/b@sha256:1'',
       MediaType = ''oci'', Tags = [1]\<rparr>]"
  by (simp add: duplicate_index_def initDB_eq example_listing4_of example_image_def
      example_image4_def example_parse example_parse4 emptyDB_def)

lemma example_index5_build:
  "initDB PerIteration example_config example_listing5 emptyDB = (None, example_index5)"
  by (simp add: example_index5_def initDB_eq example_listing5_of example_image_def
      example_image5_def example_parse example_parse3)

lemma example_index5_db:
  "RepositoryDB example_index5 =
     [\<lparr>Name = ''b'', SHA = ''sha256:1'', RawName = ''a/b@sha256:1'', URI = ''host/b@sha256:1'',
       MediaType = ''oci'', Tags = [0]\<rparr>,
      \<lparr>Name = ''b'', SHA = ''sha256:2'', RawName = ''a/b@sha256:2'', URI = ''host/b@sha256:2'',
       MediaType = ''oci'', Tags = [1]\<rparr>]"
  by (simp add: example_index5_def initDB_eq example_listing5_of example_image_def
      example_image5_def example_parse example_parse3 emptyDB_def)

lemma example_index5_mem:
  "mem example_index5 0 = ''v1''" "mem example_index5 1 = ''v2''" "mem example_index5 (Suc 0) = ''v2''"
  by (simp_all add: example_index5_def initDB_eq example_listing5_of example_image_def
      example_image5_def example_parse example_parse3 emptyDB_def)

lemma shared_tag_index_db:
  "RepositoryDB shared_tag_index =
     [\<lparr>Name = ''b'', SHA = ''sha256:1'', RawName = ''a/b@sha256:1'', URI = ''host/b@sha256:1'',
       MediaType = ''oci'', Tags = [0]\<rparr>,
      \<lparr>Name = ''b'', SHA = ''sha256:2'', RawName = ''a/b@sha256:2'', URI = ''host/b@sha256:2'',
       MediaType = ''oci'', Tags = [1]\<rparr>]"
  by (simp add: shared_tag_index_def initDB_eq example_listing3_of example_image_def
      example_image3_def example_parse example_parse3 emptyDB_def)

lemma shared_tag_index_mem:
  "mem shared_tag_index 0 = ''v1''" "mem shared_tag_index 1 = ''v1''"
  "mem shared_tag_index (Suc 0) = ''v1''"
  by (simp_all add: shared_tag_index_def initDB_eq example_listing3_of example_image_def
      example_image3_def example_parse example_parse3 emptyDB_def)

lemma digest_serve_success:
  assumes "getCredential fs config = Inr (user, credential)"
    and "Login client (URI asset) user credential = None"
    and "Pull client (URI asset) = Inr result"
  shows "digest_serve fs config client asset w =
    Return (snd (io_Copy (Chart_Data result)
      (WriteHeader 200 (Header_Set ''Content-Disposition'' (Content_Disposition result) w))))"
  unfolding digest_serve_def by (simp add: assms Let_def)

lemma echo_digest_serve:
  "client_sees (digest_serve example_fs example_config echo_client asset newResponseWriter) =
     Some \<lparr>resp_status = 200,
           resp_header = [''Content-Disposition'' \<mapsto> ''attachment; filename=b-1.0.0.tgz''],
           resp_body = URI asset\<rparr>"
proof -
  have l: "Login echo_client (URI asset) ''_json_key'' ''secret'' = None"
    by (simp add: echo_client_def)
  have p: "Pull echo_client (URI asset) =
      Inr \<lparr>Chart_Meta_Name = ''b'', Chart_Meta_Version = ''1.0.0'', Chart_Data = URI asset\<rparr>"
    by (simp add: echo_client_def)
  show ?thesis
    unfolding digest_serve_success [OF example_getCredential l p]
    by (simp add: io_Copy_finish fresh_copy Content_Disposition_def)
qed

lemma echo_tag_serve:
  "client_sees (tag_serve example_fs example_config echo_client asset newResponseWriter) =
     Some \<lparr>resp_status = 200,
           resp_header = [''Content-Disposition'' \<mapsto> ''attachment; filename=b-1.0.0.tgz''],
           resp_body = URI asset\<rparr>"
  unfolding serve_same_response [symmetric] by (rule echo_digest_serve)

section \<open>Claims\<close>

subsection \<open>C4: parsing a raw resource identifier\<close>

text \<open>
  Claim C4. \<^verbatim>\<open>extractNameAndSha\<close> succeeds exactly when the identifier has at least two
  \<^verbatim>\<open>/\<close>-separated segments and its trailing segment contains exactly one \<^verbatim>\<open>@\<close>. On
  success the trailing segment is the name, the \<^verbatim>\<open>@\<close> and the digest, neither of which
  contains an \<^verbatim>\<open>@\<close>. With fewer than two segments it fails with the error
  \<^verbatim>\<open>invalid input format\<close>, and with no or more than one \<^verbatim>\<open>@\<close> in the trailing segment
  with the error \<^verbatim>\<open>invalid name and SHA format\<close>.
\<close>

theorem extractNameAndSha_spec:
  "((\<exists>name sha. extractNameAndSha input = Inr (name, sha)) \<longleftrightarrow>
      2 \<le> length (Split input CHR ''/'') \<and>
      count_list (last (Split input CHR ''/'')) CHR ''@'' = 1) \<and>
   (\<forall>name sha. extractNameAndSha input = Inr (name, sha) \<longrightarrow>
      last (Split input CHR ''/'') = name @ ''@'' @ sha \<and>
      CHR ''@'' \<notin> set name \<and> CHR ''@'' \<notin> set sha) \<and>
   (length (Split input CHR ''/'') < 2 \<longrightarrow>
      extractNameAndSha input = Inl ''invalid input format'') \<and>
   (2 \<le> length (Split input CHR ''/'') \<and>
    count_list (last (Split input CHR ''/'')) CHR ''@'' \<noteq> 1 \<longrightarrow>
      extractNameAndSha input = Inl ''invalid name and SHA format'')"
proof (intro conjI allI impI)
  show "(\<exists>name sha. extractNameAndSha input = Inr (name, sha)) \<longleftrightarrow>
      2 \<le> length (Split input CHR ''/'') \<and>
      count_list (last (Split input CHR ''/'')) CHR ''@'' = 1"
    unfolding extractNameAndSha_Inr count_one_Split by blast
next
  fix name sha
  assume "extractNameAndSha input = Inr (name, sha)"
  then have "Split (last (Split input CHR ''/'')) CHR ''@'' = [name, sha]"
    by (simp add: extractNameAndSha_Inr)
  then show "last (Split input CHR ''/'') = name @ ''@'' @ sha"
    and "CHR ''@'' \<notin> set name" and "CHR ''@'' \<notin> set sha"
    by (simp_all add: Split_two)
next
  assume "length (Split input CHR ''/'') < 2"
  then show "extractNameAndSha input = Inl ''invalid input format''"
    by (simp add: extractNameAndSha_def)
next
  assume h: "2 \<le> length (Split input CHR ''/'') \<and>
    count_list (last (Split input CHR ''/'')) CHR ''@'' \<noteq> 1"
  then have "length (Split (last (Split input CHR ''/'')) CHR ''@'') \<noteq> 2"
    by (simp add: length_Split)
  with h show "extractNameAndSha input = Inl ''invalid name and SHA format''"
    unfolding extractNameAndSha_def Let_def last_parts by simp
qed

theorem extractNameAndSha_spec_witness:
  "extractNameAndSha ''a/b@sha256:1'' = Inr (''b'', ''sha256:1'') \<and>
   2 \<le> length (Split ''a/b@sha256:1'' CHR ''/'') \<and>
   count_list (last (Split ''a/b@sha256:1'' CHR ''/'')) CHR ''@'' = 1 \<and>
   last (Split ''a/b@sha256:1'' CHR ''/'') = ''b'' @ ''@'' @ ''sha256:1'' \<and>
   length (Split ''b@sha256:1'' CHR ''/'') < 2 \<and>
   extractNameAndSha ''b@sha256:1'' = Inl ''invalid input format'' \<and>
   count_list (last (Split ''a/b@c@d'' CHR ''/'')) CHR ''@'' \<noteq> 1 \<and>
   extractNameAndSha ''a/b@c@d'' = Inl ''invalid name and SHA format'' \<and>
   count_list (last (Split ''a/b'' CHR ''/'')) CHR ''@'' \<noteq> 1 \<and>
   extractNameAndSha ''a/b'' = Inl ''invalid name and SHA format''"
  using extractNameAndSha_spec [of "''a/b@sha256:1''"] extractNameAndSha_spec [of "''b@sha256:1''"]
    extractNameAndSha_spec [of "''a/b@c@d''"] extractNameAndSha_spec [of "''a/b''"]
  by (simp add: extractNameAndSha_def)

subsection \<open>C5: the tag route serves the first match in build order\<close>

text \<open>
  Claim C5. The tag route serves the first asset of the index whose name equals the
  requested name and whose recorded tags contain the requested tag, and returns without
  writing anything when there is none. For an index built from a listing, that asset is
  the one built from the first such item of the listing, whatever the order of the
  listing is: the first one encountered during the build wins.
\<close>

theorem tag_lookup_first_in_build_order:
  "tagHandler fs config client st name tag w =
     (case lookupByTag st name tag of
        None \<Rightarrow> Return w
      | Some asset \<Rightarrow> tag_serve fs config client asset w) \<and>
   (initDB lv config L emptyDB = (e, st) \<longrightarrow>
      map_option (view (mem st)) (lookupByTag st name tag) =
        find (\<lambda>v. v_Name v = name \<and> tag \<in> set (v_Tags v)) (built lv (listing_of config L)))"
proof (intro conjI impI)
  show "tagHandler fs config client st name tag w =
     (case lookupByTag st name tag of
        None \<Rightarrow> Return w
      | Some asset \<Rightarrow> tag_serve fs config client asset w)"
    by (rule tagHandler_lookup)
next
  assume build: "initDB lv config L emptyDB = (e, st)"
  have "map_option (view (mem st))
          (find (\<lambda>asset. v_Name (view (mem st) asset) = name \<and>
                         tag \<in> set (v_Tags (view (mem st) asset))) (RepositoryDB st)) =
        find (\<lambda>v. v_Name v = name \<and> tag \<in> set (v_Tags v)) (map (view (mem st)) (RepositoryDB st))"
    by (rule find_map_view)
  moreover have "map (view (mem st)) (RepositoryDB st) = built lv (listing_of config L)"
    using index_view_build [OF build] by (simp add: index_view_def)
  ultimately show "map_option (view (mem st)) (lookupByTag st name tag) =
        find (\<lambda>v. v_Name v = name \<and> tag \<in> set (v_Tags v)) (built lv (listing_of config L))"
    by (simp add: lookupByTag_def view_def)
qed

theorem tag_lookup_first_in_build_order_witness:
  "initDB PerIteration example_config example_listing3 emptyDB =
     (None, snd (initDB PerIteration example_config example_listing3 emptyDB)) \<and>
   map_option (view (mem (snd (initDB PerIteration example_config example_listing3 emptyDB))))
     (lookupByTag (snd (initDB PerIteration example_config example_listing3 emptyDB)) ''b'' ''v1'') =
   Some (listed_asset PerIteration example_image ''b'' ''sha256:1'')"
proof -
  have h: "initDB PerIteration example_config example_listing3 emptyDB =
     (None, snd (initDB PerIteration example_config example_listing3 emptyDB))"
    by (simp add: initDB_eq example_listing3_of example_image_def example_image3_def
        example_parse example_parse3)
  have "find (\<lambda>v. v_Name v = ''b'' \<and> ''v1'' \<in> set (v_Tags v))
          (built PerIteration (listing_of example_config example_listing3)) =
        Some (listed_asset PerIteration example_image ''b'' ''sha256:1'')"
    by (simp add: example_listing3_of example_image_def example_image3_def
        example_parse example_parse3 listed_asset_def)
  with h tag_lookup_first_in_build_order [of example_fs example_config example_client
      "snd (initDB PerIteration example_config example_listing3 emptyDB)" "''b''" "''v1''"
      newResponseWriter PerIteration example_listing3 None]
  show ?thesis by simp
qed

subsection \<open>C7: a second build appends to the index of the first\<close>

text \<open>
  Claim C7, as the code has it. \<^verbatim>\<open>initDB\<close> appends to the global index and never clears
  it. A build started from the empty index yields the assets of the listing, in listing
  order, so two such builds of one listing agree; a second build run in the same process
  leaves the index of the first build followed by the same assets once more.
\<close>

theorem rebuild_appends:
  "index_view (snd (initDB lv config L emptyDB)) = built lv (listing_of config L) \<and>
   index_view (snd (initDB lv config L (snd (initDB lv config L emptyDB)))) =
     built lv (listing_of config L) @ built lv (listing_of config L)"
proof -
  let ?it = "listing_of config L"
  obtain e1 st1 where r1: "initDB_loop lv ?it emptyDB = (e1, st1)"
    by (cases "initDB_loop lv ?it emptyDB")
  obtain e2 st2 where r2: "initDB_loop lv ?it st1 = (e2, st2)"
    by (cases "initDB_loop lv ?it st1")
  from initDB_loop_props [OF allocated_emptyDB r1]
  have a1: "allocated st1" and v1: "index_view st1 = built lv ?it"
    by (simp_all add: index_view_emptyDB)
  from initDB_loop_props [OF a1 r2] v1
  have v2: "index_view st2 = built lv ?it @ built lv ?it" by simp
  from r1 r2 v1 v2 show ?thesis by (simp add: initDB_eq)
qed

text \<open>
  Claim C7 as stated fails: after the second build of the example listing the index
  holds two assets, after the first build one.
\<close>

theorem rebuild_not_idempotent:
  "index_view (snd (initDB PerIteration example_config example_listing
      (snd (initDB PerIteration example_config example_listing emptyDB)))) \<noteq>
   index_view (snd (initDB PerIteration example_config example_listing emptyDB))"
proof -
  have "length (index_view (snd (initDB PerIteration example_config example_listing
      (snd (initDB PerIteration example_config example_listing emptyDB))))) = 2"
    by (simp add: index_view_def initDB_eq example_listing_of example_image_def example_parse
        emptyDB_def)
  moreover have
    "length (index_view (snd (initDB PerIteration example_config example_listing emptyDB))) = 1"
    by (simp add: index_view_def initDB_eq example_listing_of example_image_def example_parse
        emptyDB_def)
  ultimately show ?thesis by (metis numeral_eq_one_iff semiring_norm(85))
qed

subsection \<open>C10: a failed build leaves the assets built so far in the index\<close>

text \<open>
  Claim C10. Let the listing consist of items that are incorporated, followed by a call
  of the iterator that returns an error, or by an item whose name does not parse. Then
  \<^verbatim>\<open>initDB\<close> returns that error, and the process state is the one the build of the
  preceding items alone leaves: the index holds its former assets followed by one asset
  for each preceding item. Nothing is rolled back.
\<close>

theorem initDB_failure_keeps_prefix:
  assumes listing: "listing_of config L = pre @ bad # rest"
    and pre: "list_all incorporated pre"
    and bad: "bad = Failed err \<or>
              (\<exists>resp. bad = Item resp \<and> extractNameAndSha (pb_Name resp) = Inl err)"
    and alloc: "allocated st"
  shows "initDB lv config L st = (Some err, snd (initDB_loop lv pre st)) \<and>
    fst (initDB_loop lv pre st) = None \<and>
    index_view (snd (initDB_loop lv pre st)) = index_view st @ built lv pre \<and>
    length (built lv pre) = length pre"
proof -
  obtain st' where run: "initDB_loop lv pre st = (None, st')"
    using incorporated_run [OF pre, of lv st] by (cases "initDB_loop lv pre st") simp
  have "initDB_loop lv (pre @ bad # rest) st = initDB_loop lv (bad # rest) st'"
    using run by (rule initDB_loop_append)
  also have "\<dots> = (Some err, st')"
    using bad by (rule initDB_loop_fail_head)
  finally have "initDB lv config L st = (Some err, st')"
    by (simp add: initDB_eq listing)
  moreover have "index_view st' = index_view st @ built lv pre"
    using initDB_loop_props [OF alloc run] by simp
  moreover have "length (built lv pre) = length pre"
    using incorporated_run [OF pre] by simp
  ultimately show ?thesis using run by simp
qed

theorem initDB_failure_keeps_prefix_witness:
  "listing_of example_config failing_listing =
     [Item example_image] @ Failed ''unavailable'' # [Item example_image3] \<and>
   list_all incorporated [Item example_image] \<and> allocated emptyDB \<and>
   initDB PerIteration example_config failing_listing emptyDB = (Some ''unavailable'', example_index) \<and>
   index_view example_index = built PerIteration [Item example_image] \<and>
   length (index_view example_index) = 1"
proof -
  have h1: "listing_of example_config failing_listing =
     [Item example_image] @ Failed ''unavailable'' # [Item example_image3]"
    by (simp add: listing_of_def formatPath_def failing_listing_def)
  have h2: "list_all incorporated [Item example_image]"
    by (simp add: example_image_def example_parse)
  have h3: "Failed ''unavailable'' = Failed ''unavailable'' \<or>
     (\<exists>resp. Failed ''unavailable'' = Item resp \<and>
             extractNameAndSha (pb_Name resp) = Inl ''unavailable'')"
    by simp
  have e: "snd (initDB_loop PerIteration [Item example_image] emptyDB) = example_index"
    by (simp add: example_index_def initDB_eq example_listing_of)
  note t = initDB_failure_keeps_prefix [OF h1 h2 h3 allocated_emptyDB, of PerIteration,
      unfolded e index_view_emptyDB]
  from t have t1: "initDB PerIteration example_config failing_listing emptyDB =
      (Some ''unavailable'', example_index)"
    and t2: "index_view example_index = built PerIteration [Item example_image]"
    and t3: "length (built PerIteration [Item example_image]) = length [Item example_image]"
    by (simp_all del: built.simps initDB_loop.simps)
  from t2 t3 have "length (index_view example_index) = 1" by (simp del: built.simps)
  with h1 h2 allocated_emptyDB t1 t2 show ?thesis by blast
qed

subsection \<open>C9: a favicon probe is answered without a backend call\<close>

text \<open>
  Claim C9. For a path ending in \<^verbatim>\<open>.ico\<close> the handler of the metadata gateway makes no
  call to the backend, and a fresh response writer is left with status 404 and the body
  \<^verbatim>\<open>404 Not Found\<close> followed by a newline.
\<close>

theorem favicon_not_found_without_backend:
  "snd (getAssetsHandler env c (p @ ''.ico'') w) = [] \<and>
   finishRequest (fst (getAssetsHandler env c (p @ ''.ico'') newResponseWriter)) =
     \<lparr>resp_status = 404, resp_header = Map.empty,
      resp_body = ''404 Not Found'' @ [CHR 0x0A]\<rparr>"
  by (simp add: getAssetsHandler_def Contains_suffix Write_def WriteHeader_def finishRequest_def
      newResponseWriter_def Let_def)

subsection \<open>C1: a failing backend call ends the process\<close>

text \<open>
  Claim C1 does not hold of the index-backed gateway. With the example asset in the
  index, a credential file that cannot be read, a refused login and a failed pull each
  make the handler call \<^verbatim>\<open>log.Fatal\<close>: the process ends and the client receives no
  response. The handler of the metadata gateway answers a backend error with status 500
  and the error text instead.
\<close>

theorem request_failure_exits_process:
  "digestHandler missing_fs example_config example_client example_index ''b'' ''sha256:1''
     newResponseWriter = Exit ''no such file'' \<and>
   digestHandler example_fs example_config refusing_client example_index ''b'' ''sha256:1''
     newResponseWriter = Exit ''unauthorized'' \<and>
   tagHandler example_fs example_config failing_client example_index ''b'' ''v1''
     newResponseWriter = Exit ''manifest unknown'' \<and>
   \<not> process_survives (digestHandler missing_fs example_config example_client example_index
     ''b'' ''sha256:1'' newResponseWriter) \<and>
   client_sees (digestHandler missing_fs example_config example_client example_index
     ''b'' ''sha256:1'' newResponseWriter) = None"
proof -
  have a: "digestHandler missing_fs example_config example_client example_index ''b'' ''sha256:1''
     newResponseWriter = Exit ''no such file''"
    by (simp add: digestHandler_lookup example_lookupByDigest digest_serve_def getCredential_def
        missing_fs_def)
  have b: "digestHandler example_fs example_config refusing_client example_index ''b'' ''sha256:1''
     newResponseWriter = Exit ''unauthorized''"
    by (simp add: digestHandler_lookup example_lookupByDigest digest_serve_def
        example_getCredential refusing_client_def)
  have c: "tagHandler example_fs example_config failing_client example_index ''b'' ''v1''
     newResponseWriter = Exit ''manifest unknown''"
    by (simp add: tagHandler_lookup example_lookupByTag tag_serve_def
        example_getCredential failing_client_def)
  show ?thesis unfolding a b c by simp
qed

subsection \<open>C2: a request that matches no asset gets an empty response with status 200\<close>

text \<open>
  Claim C2 does not hold. The index holds the example asset \<^verbatim>\<open>b@sha256:1\<close> with the tag
  \<^verbatim>\<open>v1\<close>. A request for \<^verbatim>\<open>b@sha256:2\<close> and a request for \<^verbatim>\<open>b:v2\<close> match nothing: the
  loops end, the handlers return without writing, and the server sends status 200 with
  no body.
\<close>

theorem no_match_sends_empty_200:
  "digestHandler fs config client example_index ''b'' ''sha256:2'' newResponseWriter =
     Return newResponseWriter \<and>
   tagHandler fs config client example_index ''b'' ''v2'' newResponseWriter =
     Return newResponseWriter \<and>
   client_sees (digestHandler fs config client example_index ''b'' ''sha256:2'' newResponseWriter) =
     Some \<lparr>resp_status = 200, resp_header = Map.empty, resp_body = []\<rparr> \<and>
   client_sees (tagHandler fs config client example_index ''b'' ''v2'' newResponseWriter) =
     Some \<lparr>resp_status = 200, resp_header = Map.empty, resp_body = []\<rparr>"
proof -
  have a: "digestHandler fs config client example_index ''b'' ''sha256:2'' newResponseWriter =
     Return newResponseWriter"
    by (simp add: digestHandler_def example_index_db)
  have b: "tagHandler fs config client example_index ''b'' ''v2'' newResponseWriter =
     Return newResponseWriter"
    by (simp add: tagHandler_def example_index_db example_index_mem)
  show ?thesis unfolding a b by (simp add: finishRequest_def newResponseWriter_def)
qed

subsection \<open>C6: the tags recorded for an asset\<close>

text \<open>
  Claim C6 fails when the loop variable is one variable for the whole loop, as it is for
  a module whose \<^verbatim>\<open>go.mod\<close> declares a Go version below 1.22: every entry of
  \<^verbatim>\<open>asset.Tags\<close> is then the address of that one variable, which holds the last tag when
  the loop ends. For the item \<^verbatim>\<open>a/b@sha256:1\<close> listed with the tags \<^verbatim>\<open>v1\<close> and
  \<^verbatim>\<open>latest\<close>, the asset records \<^verbatim>\<open>latest\<close> twice, and the tag \<^verbatim>\<open>v1\<close> resolves to nothing.
  With a variable per iteration the recorded tags are the listed ones
  (\<open>recorded_tags_of_item\<close>).
\<close>

theorem shared_loop_variable_loses_tags:
  "index_view (snd (initDB PerLoop example_config example_listing2 emptyDB)) =
     [\<lparr>v_Name = ''b'', v_SHA = ''sha256:1'', v_RawName = ''a/b@sha256:1'',
       v_URI = ''host/b@sha256:1'', v_MediaType = ''oci'', v_Tags = [''latest'', ''latest'']\<rparr>] \<and>
   lookupByTag (snd (initDB PerLoop example_config example_listing2 emptyDB)) ''b'' ''v1'' = None \<and>
   index_view (snd (initDB PerIteration example_config example_listing2 emptyDB)) =
     [\<lparr>v_Name = ''b'', v_SHA = ''sha256:1'', v_RawName = ''a/b@sha256:1'',
       v_URI = ''host/b@sha256:1'', v_MediaType = ''oci'', v_Tags = [''v1'', ''latest'']\<rparr>]"
  by (simp add: index_view_def view_def recorded_tags_def lookupByTag_def initDB_eq listing_of_def
      formatPath_def example_listing2_def example_image2_def example_parse emptyDB_def)

subsection \<open>C3: a digest lookup returns the first asset with that name and digest\<close>

text \<open>
  Claim C3, as the code has it. Let the build, started from the empty index, complete
  without error, and let the \<open>i\<close>-th listed item have a raw identifier that parses to
  \<open>(name, digest)\<close>. The asset at position \<open>i\<close> of the index is the one built from
  that item. The digest lookup with \<open>(name, digest)\<close> returns the first asset of the
  index with that name and digest, at a position not after \<open>i\<close>; it returns the asset
  built from the item, and the digest route serves it, when no earlier asset of the index
  has the same name and digest.
\<close>

theorem digest_lookup_first_match:
  assumes build: "initDB lv config L emptyDB = (None, st)"
    and i: "i < length (listing_of config L)"
    and item: "listing_of config L ! i = Item resp"
    and parse: "extractNameAndSha (pb_Name resp) = Inr (name, digest)"
  shows "view (mem st) (RepositoryDB st ! i) = listed_asset lv resp name digest \<and>
    (\<exists>k\<le>i. lookupByDigest st name digest = Some (RepositoryDB st ! k) \<and>
       Name (RepositoryDB st ! k) = name \<and> SHA (RepositoryDB st ! k) = digest \<and>
       (\<forall>j<k. \<not> (Name (RepositoryDB st ! j) = name \<and> SHA (RepositoryDB st ! j) = digest))) \<and>
    ((\<forall>j<i. \<not> (Name (RepositoryDB st ! j) = name \<and> SHA (RepositoryDB st ! j) = digest)) \<longrightarrow>
       lookupByDigest st name digest = Some (RepositoryDB st ! i) \<and>
       digestHandler fs config client st name digest w =
         digest_serve fs config client (RepositoryDB st ! i) w)"
proof (intro conjI impI)
  let ?db = "RepositoryDB st"
  let ?P = "\<lambda>asset. Name asset = name \<and> SHA asset = digest"
  note nv = index_nth_view [OF build i item parse]
  show "view (mem st) (?db ! i) = listed_asset lv resp name digest" by (rule nv(2))
  have Pi: "?P (?db ! i)" using nv(3,4) by simp
  from find_least_nth [of i ?db ?P, OF nv(1) Pi]
  show "\<exists>k\<le>i. lookupByDigest st name digest = Some (?db ! k) \<and>
       Name (?db ! k) = name \<and> SHA (?db ! k) = digest \<and>
       (\<forall>j<k. \<not> (Name (?db ! j) = name \<and> SHA (?db ! j) = digest))"
    by (simp add: lookupByDigest_def)
  assume first: "\<forall>j<i. \<not> (Name (?db ! j) = name \<and> SHA (?db ! j) = digest)"
  from find_first_nth [of i ?db ?P, OF nv(1) Pi first]
  show l: "lookupByDigest st name digest = Some (?db ! i)"
    by (simp add: lookupByDigest_def)
  show "digestHandler fs config client st name digest w =
         digest_serve fs config client (?db ! i) w"
    by (simp add: digestHandler_lookup l)
qed

theorem digest_lookup_first_match_witness:
  "initDB PerIteration example_config example_listing5 emptyDB = (None, example_index5) \<and>
   (1::nat) < length (listing_of example_config example_listing5) \<and>
   listing_of example_config example_listing5 ! 1 = Item example_image5 \<and>
   extractNameAndSha (pb_Name example_image5) = Inr (''b'', ''sha256:2'') \<and>
   view (mem example_index5) (RepositoryDB example_index5 ! 1) =
     listed_asset PerIteration example_image5 ''b'' ''sha256:2'' \<and>
   lookupByDigest example_index5 ''b'' ''sha256:2'' = Some (RepositoryDB example_index5 ! 1) \<and>
   digestHandler example_fs example_config example_client example_index5 ''b'' ''sha256:2''
       newResponseWriter =
     digest_serve example_fs example_config example_client (RepositoryDB example_index5 ! 1)
       newResponseWriter"
proof -
  have h2: "(1::nat) < length (listing_of example_config example_listing5)"
    by (simp add: example_listing5_of)
  have h3: "listing_of example_config example_listing5 ! 1 = Item example_image5"
    by (simp add: example_listing5_of)
  have h4: "extractNameAndSha (pb_Name example_image5) = Inr (''b'', ''sha256:2'')"
    by (simp add: example_image5_def example_parse3)
  have first: "\<forall>j<1. \<not> (Name (RepositoryDB example_index5 ! j) = ''b'' \<and>
      SHA (RepositoryDB example_index5 ! j) = ''sha256:2'')"
    by (simp add: example_index5_db)
  note t = digest_lookup_first_match [OF example_index5_build h2 h3 h4,
      of example_fs example_client newResponseWriter]
  note t1 = t [THEN conjunct1]
  note t3 = t [THEN conjunct2, THEN conjunct2, THEN mp, OF first]
  show ?thesis
    by (intro conjI) (rule example_index5_build h2 h3 h4 t1 t3 [THEN conjunct1] t3 [THEN conjunct2])+
qed

text \<open>
  Claim C3 as stated fails when two listed identifiers end in the same segment. The
  listing holds \<^verbatim>\<open>a/b@sha256:1\<close> and then \<^verbatim>\<open>x/b@sha256:1\<close>, with different locations. The
  build completes, the second asset is in the index, and the lookup with its name and
  digest returns the first asset, which is another asset with another location.
\<close>

theorem digest_lookup_duplicate_pair:
  "initDB PerIteration example_config example_listing4 emptyDB = (None, duplicate_index) \<and>
   listing_of example_config example_listing4 ! 1 = Item example_image4 \<and>
   extractNameAndSha (pb_Name example_image4) = Inr (''b'', ''sha256:1'') \<and>
   RawName (RepositoryDB duplicate_index ! 1) = ''x/b@sha256:1'' \<and>
   URI (RepositoryDB duplicate_index ! 1) = ''other/b@sha256:1'' \<and>
   lookupByDigest duplicate_index ''b'' ''sha256:1'' = Some (RepositoryDB duplicate_index ! 0) \<and>
   URI (RepositoryDB duplicate_index ! 0) = ''host/b@sha256:1'' \<and>
   lookupByDigest duplicate_index ''b'' ''sha256:1'' \<noteq> Some (RepositoryDB duplicate_index ! 1)"
proof -
  have a: "listing_of example_config example_listing4 ! 1 = Item example_image4"
    by (simp add: example_listing4_of)
  have b: "extractNameAndSha (pb_Name example_image4) = Inr (''b'', ''sha256:1'')"
    by (simp add: example_image4_def example_parse4)
  have c: "RawName (RepositoryDB duplicate_index ! 1) = ''x/b@sha256:1''"
    "URI (RepositoryDB duplicate_index ! 1) = ''other/b@sha256:1''"
    "URI (RepositoryDB duplicate_index ! 0) = ''host/b@sha256:1''"
    by (simp_all add: duplicate_index_db)
  have d: "lookupByDigest duplicate_index ''b'' ''sha256:1'' = Some (RepositoryDB duplicate_index ! 0)"
    by (simp add: lookupByDigest_def duplicate_index_db)
  have e: "lookupByDigest duplicate_index ''b'' ''sha256:1'' \<noteq> Some (RepositoryDB duplicate_index ! 1)"
    by (simp add: lookupByDigest_def duplicate_index_db)
  show ?thesis
    by (intro conjI) (rule duplicate_index_build a b c d e)+
qed

subsection \<open>C8: the digest route and the tag route send the same response\<close>

text \<open>
  Claim C8, as the code has it. Take an asset of the index, the digest-addressed
  identifier made of its name and digest, and a tag-addressed identifier made of its name
  and one of its recorded tags. When no earlier asset of that name in the index has the
  same digest or records the same tag, both routes serve that asset, and the client of
  the one request receives what the client of the other receives; this holds for failing
  backends too, where both end the process. When the credential is read, the login
  succeeds and the pull returns a chart, both responses have status 200, the header
  \<^verbatim>\<open>Content-Disposition\<close> with the value \<^verbatim>\<open>attachment; filename=\<close>, name, \<^verbatim>\<open>-\<close>, version,
  \<^verbatim>\<open>.tgz\<close>, and the chart's bytes as the body. The tag route does not call
  \<^verbatim>\<open>WriteHeader\<close>; its status 200 is the one the first write, or the server at the end of
  the request, supplies.
\<close>

theorem same_asset_same_response:
  assumes i: "i < length (RepositoryDB st)"
    and tag: "tag \<in> set (recorded_tags (mem st) (RepositoryDB st ! i))"
    and first: "\<forall>j<i. Name (RepositoryDB st ! j) = Name (RepositoryDB st ! i) \<longrightarrow>
       SHA (RepositoryDB st ! j) \<noteq> SHA (RepositoryDB st ! i) \<and>
       tag \<notin> set (recorded_tags (mem st) (RepositoryDB st ! j))"
  shows "digestHandler fs config client st (Name (RepositoryDB st ! i)) (SHA (RepositoryDB st ! i)) w =
      digest_serve fs config client (RepositoryDB st ! i) w \<and>
    tagHandler fs config client st (Name (RepositoryDB st ! i)) tag w =
      tag_serve fs config client (RepositoryDB st ! i) w \<and>
    client_sees (digestHandler fs config client st (Name (RepositoryDB st ! i))
        (SHA (RepositoryDB st ! i)) w) =
      client_sees (tagHandler fs config client st (Name (RepositoryDB st ! i)) tag w) \<and>
    (getCredential fs config = Inr (user, credential) \<and>
     Login client (URI (RepositoryDB st ! i)) user credential = None \<and>
     Pull client (URI (RepositoryDB st ! i)) = Inr result \<longrightarrow>
       client_sees (digestHandler fs config client st (Name (RepositoryDB st ! i))
           (SHA (RepositoryDB st ! i)) newResponseWriter) =
         Some \<lparr>resp_status = 200,
               resp_header = [''Content-Disposition'' \<mapsto>
                 ''attachment; filename='' @ Chart_Meta_Name result @ ''-'' @
                 Chart_Meta_Version result @ ''.tgz''],
               resp_body = Chart_Data result\<rparr> \<and>
       client_sees (tagHandler fs config client st (Name (RepositoryDB st ! i)) tag
           newResponseWriter) =
         Some \<lparr>resp_status = 200,
               resp_header = [''Content-Disposition'' \<mapsto>
                 ''attachment; filename='' @ Chart_Meta_Name result @ ''-'' @
                 Chart_Meta_Version result @ ''.tgz''],
               resp_body = Chart_Data result\<rparr>)"
proof -
  let ?db = "RepositoryDB st"
  let ?a = "?db ! i"
  let ?D = "\<lambda>asset. Name asset = Name ?a \<and> SHA asset = SHA ?a"
  let ?T = "\<lambda>asset. Name asset = Name ?a \<and> tag \<in> set (recorded_tags (mem st) asset)"
  have "\<forall>j<i. \<not> ?D (?db ! j)" using first by blast
  from find_first_nth [of i ?db ?D, OF i _ this]
  have ld: "lookupByDigest st (Name ?a) (SHA ?a) = Some ?a"
    by (simp add: lookupByDigest_def)
  have "\<forall>j<i. \<not> ?T (?db ! j)" using first by blast
  from find_first_nth [of i ?db ?T, OF i _ this] tag
  have lt: "lookupByTag st (Name ?a) tag = Some ?a"
    by (simp add: lookupByTag_def)
  have d: "digestHandler fs config client st (Name ?a) (SHA ?a) w' =
      digest_serve fs config client ?a w'" for w'
    by (simp add: digestHandler_lookup ld)
  have t: "tagHandler fs config client st (Name ?a) tag w' = tag_serve fs config client ?a w'" for w'
    by (simp add: tagHandler_lookup lt)
  have same: "client_sees (digestHandler fs config client st (Name ?a) (SHA ?a) w') =
      client_sees (tagHandler fs config client st (Name ?a) tag w')" for w'
    unfolding d t by (rule serve_same_response)
  have ok: "client_sees (tagHandler fs config client st (Name ?a) tag newResponseWriter) =
         Some \<lparr>resp_status = 200,
               resp_header = [''Content-Disposition'' \<mapsto>
                 ''attachment; filename='' @ Chart_Meta_Name result @ ''-'' @
                 Chart_Meta_Version result @ ''.tgz''],
               resp_body = Chart_Data result\<rparr>"
    if h: "getCredential fs config = Inr (user, credential) \<and>
     Login client (URI ?a) user credential = None \<and> Pull client (URI ?a) = Inr result"
  proof -
    from h have "tag_serve fs config client ?a newResponseWriter =
      Return (snd (io_Copy (Chart_Data result)
        (Header_Set ''Content-Disposition'' (Content_Disposition result) newResponseWriter)))"
      by (simp add: tag_serve_success)
    then have "client_sees (tag_serve fs config client ?a newResponseWriter) =
      Some \<lparr>resp_status = 200,
            resp_header = [''Content-Disposition'' \<mapsto> Content_Disposition result],
            resp_body = Chart_Data result\<rparr>"
      by (simp add: fresh_copy)
    then show ?thesis by (simp add: t Content_Disposition_def)
  qed
  show ?thesis
  proof (intro conjI impI)
    show "digestHandler fs config client st (Name ?a) (SHA ?a) w =
      digest_serve fs config client ?a w" by (rule d)
    show "tagHandler fs config client st (Name ?a) tag w = tag_serve fs config client ?a w"
      by (rule t)
    show "client_sees (digestHandler fs config client st (Name ?a) (SHA ?a) w) =
      client_sees (tagHandler fs config client st (Name ?a) tag w)" by (rule same)
  next
    assume h: "getCredential fs config = Inr (user, credential) \<and>
     Login client (URI ?a) user credential = None \<and> Pull client (URI ?a) = Inr result"
    show "client_sees (tagHandler fs config client st (Name ?a) tag newResponseWriter) =
         Some \<lparr>resp_status = 200,
               resp_header = [''Content-Disposition'' \<mapsto>
                 ''attachment; filename='' @ Chart_Meta_Name result @ ''-'' @
                 Chart_Meta_Version result @ ''.tgz''],
               resp_body = Chart_Data result\<rparr>"
      using h by (rule ok)
    then show "client_sees (digestHandler fs config client st (Name ?a) (SHA ?a)
           newResponseWriter) =
         Some \<lparr>resp_status = 200,
               resp_header = [''Content-Disposition'' \<mapsto>
                 ''attachment; filename='' @ Chart_Meta_Name result @ ''-'' @
                 Chart_Meta_Version result @ ''.tgz''],
               resp_body = Chart_Data result\<rparr>"
      unfolding same .
  qed
qed

theorem same_asset_same_response_witness:
  "(1::nat) < length (RepositoryDB example_index5) \<and>
   Name (RepositoryDB example_index5 ! 1) = ''b'' \<and>
   SHA (RepositoryDB example_index5 ! 1) = ''sha256:2'' \<and>
   ''v2'' \<in> set (recorded_tags (mem example_index5) (RepositoryDB example_index5 ! 1)) \<and>
   client_sees (digestHandler example_fs example_config example_client example_index5
       ''b'' ''sha256:2'' newResponseWriter) =
     Some \<lparr>resp_status = 200,
           resp_header = [''Content-Disposition'' \<mapsto> ''attachment; filename=b-1.0.0.tgz''],
           resp_body = ''tgz''\<rparr> \<and>
   client_sees (tagHandler example_fs example_config example_client example_index5
       ''b'' ''v2'' newResponseWriter) =
     Some \<lparr>resp_status = 200,
           resp_header = [''Content-Disposition'' \<mapsto> ''attachment; filename=b-1.0.0.tgz''],
           resp_body = ''tgz''\<rparr>"
proof -
  let ?a = "RepositoryDB example_index5 ! 1"
  have i: "(1::nat) < length (RepositoryDB example_index5)"
    by (simp add: example_index5_db)
  have n: "Name ?a = ''b''" and s: "SHA ?a = ''sha256:2''"
    by (simp_all add: example_index5_db)
  have tag: "''v2'' \<in> set (recorded_tags (mem example_index5) ?a)"
    by (simp add: recorded_tags_def example_index5_db example_index5_mem)
  have first: "\<forall>j<1. Name (RepositoryDB example_index5 ! j) = Name ?a \<longrightarrow>
       SHA (RepositoryDB example_index5 ! j) \<noteq> SHA ?a \<and>
       ''v2'' \<notin> set (recorded_tags (mem example_index5) (RepositoryDB example_index5 ! j))"
    by (simp add: recorded_tags_def example_index5_db example_index5_mem)
  have h: "getCredential example_fs example_config = Inr (''_json_key'', ''secret'') \<and>
     Login example_client (URI ?a) ''_json_key'' ''secret'' = None \<and>
     Pull example_client (URI ?a) = Inr example_chart"
    by (simp add: example_getCredential example_client_def)
  note t = same_asset_same_response [OF i tag first, of example_fs example_config example_client
      newResponseWriter "''_json_key''" "''secret''" example_chart,
      THEN conjunct2, THEN conjunct2, THEN conjunct2, THEN mp, OF h, unfolded n s]
  have dg: "client_sees (digestHandler example_fs example_config example_client example_index5
       ''b'' ''sha256:2'' newResponseWriter) =
     Some \<lparr>resp_status = 200,
           resp_header = [''Content-Disposition'' \<mapsto> ''attachment; filename=b-1.0.0.tgz''],
           resp_body = ''tgz''\<rparr>"
    using t [THEN conjunct1] by (simp add: example_chart_def)
  have tg: "client_sees (tagHandler example_fs example_config example_client example_index5
       ''b'' ''v2'' newResponseWriter) =
     Some \<lparr>resp_status = 200,
           resp_header = [''Content-Disposition'' \<mapsto> ''attachment; filename=b-1.0.0.tgz''],
           resp_body = ''tgz''\<rparr>"
    using t [THEN conjunct2] by (simp add: example_chart_def)
  show ?thesis
    by (intro conjI) (rule i n s tag dg tg)+
qed

text \<open>
  Claim C8 as stated fails when an earlier asset of the same name records the tag. The
  index holds \<^verbatim>\<open>b@sha256:1\<close> and then \<^verbatim>\<open>b@sha256:2\<close>, both with the tag \<^verbatim>\<open>v1\<close>. The
  identifiers \<^verbatim>\<open>b@sha256:2\<close> and \<^verbatim>\<open>b:v1\<close> are made of the name, the digest and a recorded
  tag of the second asset, but the tag route serves the first asset: the two responses
  carry the bytes pulled from different locations.
\<close>

theorem shared_tag_serves_other_asset:
  "(1::nat) < length (RepositoryDB shared_tag_index) \<and>
   Name (RepositoryDB shared_tag_index ! 1) = ''b'' \<and>
   SHA (RepositoryDB shared_tag_index ! 1) = ''sha256:2'' \<and>
   ''v1'' \<in> set (recorded_tags (mem shared_tag_index) (RepositoryDB shared_tag_index ! 1)) \<and>
   client_sees (digestHandler example_fs example_config echo_client shared_tag_index
       ''b'' ''sha256:2'' newResponseWriter) =
     Some \<lparr>resp_status = 200,
           resp_header = [''Content-Disposition'' \<mapsto> ''attachment; filename=b-1.0.0.tgz''],
           resp_body = ''host/b@sha256:2''\<rparr> \<and>
   client_sees (tagHandler example_fs example_config echo_client shared_tag_index
       ''b'' ''v1'' newResponseWriter) =
     Some \<lparr>resp_status = 200,
           resp_header = [''Content-Disposition'' \<mapsto> ''attachment; filename=b-1.0.0.tgz''],
           resp_body = ''host/b@sha256:1''\<rparr> \<and>
   client_sees (digestHandler example_fs example_config echo_client shared_tag_index
       ''b'' ''sha256:2'' newResponseWriter) \<noteq>
   client_sees (tagHandler example_fs example_config echo_client shared_tag_index
       ''b'' ''v1'' newResponseWriter)"
proof -
  let ?a = "RepositoryDB shared_tag_index ! 1"
  have i: "(1::nat) < length (RepositoryDB shared_tag_index)"
    by (simp add: shared_tag_index_db)
  have n: "Name ?a = ''b''" and s: "SHA ?a = ''sha256:2''"
    by (simp_all add: shared_tag_index_db)
  have tag: "''v1'' \<in> set (recorded_tags (mem shared_tag_index) ?a)"
    by (simp add: recorded_tags_def shared_tag_index_db shared_tag_index_mem)
  have ld: "lookupByDigest shared_tag_index ''b'' ''sha256:2'' = Some ?a"
    by (simp add: lookupByDigest_def shared_tag_index_db)
  have lt: "lookupByTag shared_tag_index ''b'' ''v1'' = Some (RepositoryDB shared_tag_index ! 0)"
    by (simp add: lookupByTag_def recorded_tags_def shared_tag_index_db shared_tag_index_mem)
  have u1: "URI ?a = ''host/b@sha256:2''"
    and u0: "URI (RepositoryDB shared_tag_index ! 0) = ''host/b@sha256:1''"
    by (simp_all add: shared_tag_index_db)
  have dg: "client_sees (digestHandler example_fs example_config echo_client shared_tag_index
       ''b'' ''sha256:2'' newResponseWriter) =
     Some \<lparr>resp_status = 200,
           resp_header = [''Content-Disposition'' \<mapsto> ''attachment; filename=b-1.0.0.tgz''],
           resp_body = ''host/b@sha256:2''\<rparr>"
    unfolding digestHandler_lookup ld option.case echo_digest_serve u1 ..
  have tg: "client_sees (tagHandler example_fs example_config echo_client shared_tag_index
       ''b'' ''v1'' newResponseWriter) =
     Some \<lparr>resp_status = 200,
           resp_header = [''Content-Disposition'' \<mapsto> ''attachment; filename=b-1.0.0.tgz''],
           resp_body = ''host/b@sha256:1''\<rparr>"
    unfolding tagHandler_lookup lt option.case echo_tag_serve u0 ..
  have ne: "client_sees (digestHandler example_fs example_config echo_client shared_tag_index
       ''b'' ''sha256:2'' newResponseWriter) \<noteq>
   client_sees (tagHandler example_fs example_config echo_client shared_tag_index
       ''b'' ''v1'' newResponseWriter)"
    unfolding dg tg by simp
  show ?thesis
    by (intro conjI) (rule i n s tag dg tg ne)+
qed

end
